theory Spec2Isabelle
  imports Complex_Main "HOL-Library.AList"
begin

section \<open>Go values used by the generator\<close>

text \<open>
  A Go map is modelled as an association list read with \<open>map_of\<close>, written with
  \<open>AList.update\<close> and \<open>AList.delete\<close>. A \<open>range\<close> loop over a map visits the
  entries in the order of the list; Go leaves that order unspecified, and every
  general theorem below holds for all lists, hence for every order.
  A run-time panic of the Go program is the value \<open>Inl p\<close> of a sum type.
\<close>

type_synonym ('k, 'v) gomap = "('k \<times> 'v) list"

datatype panic = IndexOutOfRange | TypeAssertion

text \<open>\<open>m[k]\<close> on a \<open>map[string]string\<close>: the empty string when the key is absent.\<close>

definition index_str :: "(string, string) gomap \<Rightarrow> string \<Rightarrow> string" where
  "index_str m k = (case map_of m k of Some v \<Rightarrow> v | None \<Rightarrow> [])"

text \<open>The comma-ok form \<open>_, ok := m[k]\<close>: whether the key is present.\<close>

definition hasKey :: "('k, 'v) gomap \<Rightarrow> 'k \<Rightarrow> bool" where
  "hasKey m k = (case map_of m k of Some _ \<Rightarrow> True | None \<Rightarrow> False)"

text \<open>\<open>m[k]\<close> on a \<open>map[string]float64\<close>: zero when the key is absent.\<close>

definition index_prob :: "(string, real) gomap \<Rightarrow> string \<Rightarrow> real" where
  "index_prob m k = (case map_of m k of Some p \<Rightarrow> p | None \<Rightarrow> 0)"

text \<open>
  The process-wide random source \<open>math/rand\<close>: an infinite sequence of draws.
  \<open>rand.Float64()\<close> returns the next draw and advances the source.
\<close>

type_synonym rng = "nat \<Rightarrow> real"

definition Float64 :: "rng \<Rightarrow> real \<times> rng" where
  "Float64 r = (r 0, \<lambda>i. r (Suc i))"

section \<open>The Bayesian network\<close>

text \<open>
  A decoded JSON value of type \<open>interface{}\<close>: a \<open>float64\<close>, a
  \<open>map[string]interface{}\<close>, or anything else (string, bool, null, array).
  Probabilities are modelled as reals; no theorem below depends on the arithmetic
  of the weights.
\<close>

datatype jval = JNum real | JObj "(string \<times> jval) list" | JOther

record node =
  Name :: string
  ParentNames :: "string list"
  PossibleValues :: "string list"
  ConditionalProbs :: "(string, jval) gomap"

record bayesianNetwork =
  NodesInSamplingOrder :: "node list"

type_synonym assignment = "(string, string) gomap"

text \<open>
  The loop of \<open>getProbabilitiesGivenKnownValues\<close> over the parent names. The two
  unchecked type assertions \<open>next.(map[string]interface{})\<close> and
  \<open>probabilities["skip"].(map[string]interface{})\<close> panic when the value is not an
  object (or is absent).
\<close>

fun walkParents ::
  "(string, jval) gomap \<Rightarrow> string list \<Rightarrow> assignment \<Rightarrow> panic + (string, jval) gomap" where
  "walkParents probabilities [] parentValues = Inr probabilities"
| "walkParents probabilities (parentName # rest) parentValues =
     (let parentValue = index_str parentValues parentName in
      case map_of probabilities ''deeper'' of
        Some (JObj deeper) \<Rightarrow>
          (case map_of deeper parentValue of
             Some next \<Rightarrow>
               (case next of
                  JObj m \<Rightarrow> walkParents m rest parentValues
                | _ \<Rightarrow> Inl TypeAssertion)
           | None \<Rightarrow>
               (case map_of probabilities ''skip'' of
                  Some (JObj m) \<Rightarrow> walkParents m rest parentValues
                | _ \<Rightarrow> Inl TypeAssertion))
      | _ \<Rightarrow> walkParents probabilities rest parentValues)"

text \<open>The final loop: keep the entries whose value is a \<open>float64\<close>.\<close>

definition floatEntries :: "(string, jval) gomap \<Rightarrow> (string, real) gomap" where
  "floatEntries probabilities =
     fold (\<lambda>(k, v) result. case v of JNum prob \<Rightarrow> AList.update k prob result | _ \<Rightarrow> result)
       probabilities []"

definition getProbabilitiesGivenKnownValues ::
  "node \<Rightarrow> assignment \<Rightarrow> panic + (string, real) gomap" where
  "getProbabilitiesGivenKnownValues n parentValues =
     (case walkParents (ConditionalProbs n) (ParentNames n) parentValues of
        Inl p \<Rightarrow> Inl p
      | Inr probabilities \<Rightarrow> Inr (floatEntries probabilities))"

text \<open>
  The scan of \<open>sampleRandomValueFromPossibilities\<close>: the first value whose
  cumulative weight exceeds the anchor, if any.
\<close>

fun scanCumulative ::
  "real \<Rightarrow> (string, real) gomap \<Rightarrow> real \<Rightarrow> string list \<Rightarrow> string option" where
  "scanCumulative anchor probabilities cumulativeProbability [] = None"
| "scanCumulative anchor probabilities cumulativeProbability (v # rest) =
     (let c = cumulativeProbability + index_prob probabilities v in
      if c > anchor then Some v
      else scanCumulative anchor probabilities c rest)"

text \<open>\<open>return possibleValues[0]\<close> panics on the empty slice.\<close>

definition sampleRandomValueFromPossibilities ::
  "string list \<Rightarrow> (string, real) gomap \<Rightarrow> rng \<Rightarrow> (panic + string) \<times> rng" where
  "sampleRandomValueFromPossibilities possibleValues probabilities r =
     (case Float64 r of (anchor, r') \<Rightarrow>
        (case scanCumulative anchor probabilities 0 possibleValues of
           Some v \<Rightarrow> (Inr v, r')
         | None \<Rightarrow>
             (case possibleValues of
                [] \<Rightarrow> (Inl IndexOutOfRange, r')
              | v # _ \<Rightarrow> (Inr v, r'))))"

definition sample :: "node \<Rightarrow> assignment \<Rightarrow> rng \<Rightarrow> (panic + string) \<times> rng" where
  "sample n parentValues r =
     (case getProbabilitiesGivenKnownValues n parentValues of
        Inl p \<Rightarrow> (Inl p, r)
      | Inr probabilities \<Rightarrow>
          sampleRandomValueFromPossibilities (map fst probabilities) probabilities r)"

text \<open>
  \<open>sampleAccordingToRestrictions\<close> returns \<open>("", false)\<close> when no value is valid:
  the model returns \<open>None\<close> for it.
\<close>

definition validValuesOf ::
  "(string, real) gomap \<Rightarrow> string list \<Rightarrow> string list \<Rightarrow> string list" where
  "validValuesOf probabilities valuePossibilities bannedValues =
     filter (\<lambda>v. v \<notin> set bannedValues \<and> hasKey probabilities v) valuePossibilities"

definition sampleAccordingToRestrictions ::
  "node \<Rightarrow> assignment \<Rightarrow> string list \<Rightarrow> string list \<Rightarrow> rng
     \<Rightarrow> (panic + string option) \<times> rng" where
  "sampleAccordingToRestrictions n parentValues valuePossibilities bannedValues r =
     (case getProbabilitiesGivenKnownValues n parentValues of
        Inl p \<Rightarrow> (Inl p, r)
      | Inr probabilities \<Rightarrow>
          (let validValues = validValuesOf probabilities valuePossibilities bannedValues in
           if validValues = [] then (Inr None, r)
           else
             (let validProbs =
                    fold (\<lambda>v m. AList.update v (index_prob probabilities v) m) validValues []
              in case sampleRandomValueFromPossibilities validValues validProbs r of
                   (Inl p, r') \<Rightarrow> (Inl p, r')
                 | (Inr v, r') \<Rightarrow> (Inr (Some v), r'))))"

text \<open>
  \<open>generateSample\<close>: the sample starts as a copy of the input values (a nil map is
  the empty list); the loop binds every node that is not bound yet.
\<close>

fun generateSampleLoop :: "node list \<Rightarrow> assignment \<Rightarrow> rng \<Rightarrow> (panic + assignment) \<times> rng" where
  "generateSampleLoop [] smp r = (Inr smp, r)"
| "generateSampleLoop (n # rest) smp r =
     (if hasKey smp (Name n) then generateSampleLoop rest smp r
      else
        (case sample n smp r of
           (Inl p, r') \<Rightarrow> (Inl p, r')
         | (Inr v, r') \<Rightarrow> generateSampleLoop rest (AList.update (Name n) v smp) r'))"

definition generateSample ::
  "bayesianNetwork \<Rightarrow> assignment \<Rightarrow> rng \<Rightarrow> (panic + assignment) \<times> rng" where
  "generateSample bn inputValues r = generateSampleLoop (NodesInSamplingOrder bn) inputValues r"

text \<open>
  The restricted, backtracking sampler. The shared map \<open>sampleSoFar\<close> is mutated
  in place by the Go code, so every outcome carries the state of that map.
  The value restrictions map a node name to its list; a name bound to a nil slice
  behaves as an absent name (\<open>possibilities == nil\<close>) and is represented by absence.
\<close>

datatype search = Found assignment rng | NotFound assignment rng | Aborted panic

definition possibilitiesOf :: "(string, string list) gomap \<Rightarrow> node \<Rightarrow> string list" where
  "possibilitiesOf valuePossibilities n =
     (case map_of valuePossibilities (Name n) of
        Some possibilities \<Rightarrow> possibilities
      | None \<Rightarrow> PossibleValues n)"

text \<open>
  The loop variable \<open>bannedValues\<close> is an argument of the model: the Go function is
  entered with the empty list, and one more iteration of its \<open>for\<close> loop is a call at
  the same depth with one more banned value. A run that never returns is \<open>None\<close>.
\<close>

partial_function (option) recursivelyGenerateConsistentSampleWhenPossible ::
  "bayesianNetwork \<Rightarrow> (string, string list) gomap \<Rightarrow> nat \<Rightarrow> string list
     \<Rightarrow> assignment \<Rightarrow> rng \<Rightarrow> search option" where
  "recursivelyGenerateConsistentSampleWhenPossible bn valuePossibilities depth bannedValues
       sampleSoFar r =
     (if depth = length (NodesInSamplingOrder bn) then Some (Found sampleSoFar r)
      else if depth > length (NodesInSamplingOrder bn) then Some (Aborted IndexOutOfRange)
      else
        (let n = NodesInSamplingOrder bn ! depth in
         case sampleAccordingToRestrictions n sampleSoFar
                (possibilitiesOf valuePossibilities n) bannedValues r of
           (Inl p, r1) \<Rightarrow> Some (Aborted p)
         | (Inr None, r1) \<Rightarrow> Some (NotFound sampleSoFar r1)
         | (Inr (Some sampleValue), r1) \<Rightarrow>
             Option.bind
               (recursivelyGenerateConsistentSampleWhenPossible bn valuePossibilities
                  (Suc depth) [] (AList.update (Name n) sampleValue sampleSoFar) r1)
               (\<lambda>res. case res of
                  Found nextSample r2 \<Rightarrow> Some (Found nextSample r2)
                | Aborted p \<Rightarrow> Some (Aborted p)
                | NotFound smp r2 \<Rightarrow>
                    recursivelyGenerateConsistentSampleWhenPossible bn valuePossibilities
                      depth (bannedValues @ [sampleValue]) (AList.delete (Name n) smp) r2)))"

definition generateConsistentSampleWhenPossible ::
  "bayesianNetwork \<Rightarrow> (string, string list) gomap \<Rightarrow> rng \<Rightarrow> search option" where
  "generateConsistentSampleWhenPossible bn valuePossibilities r =
     recursivelyGenerateConsistentSampleWhenPossible bn valuePossibilities 0 [] [] r"

section \<open>Well-formedness and invariants used in the statements\<close>

text \<open>
  A network whose conditional probability tables mention only possible values: every
  leaf distribution reached by the walk has its keys among the node's
  \<open>PossibleValues\<close>. The loader does not check it.
\<close>

definition leafValuesPossible :: "bayesianNetwork \<Rightarrow> bool" where
  "leafValuesPossible bn =
     (\<forall>n \<in> set (NodesInSamplingOrder bn). \<forall>parentValues probabilities.
        getProbabilitiesGivenKnownValues n parentValues = Inr probabilities \<longrightarrow>
        fst ` set probabilities \<subseteq> set (PossibleValues n))"

text \<open>
  The invariant of the backtracking search over the nodes from the current depth on:
  bindings of other names are left as they were, and on success every node from the
  current depth on is bound to a value satisfying \<open>Q\<close>.
\<close>

definition unchangedOutside :: "node list \<Rightarrow> assignment \<Rightarrow> assignment \<Rightarrow> bool" where
  "unchangedOutside ns a b = (\<forall>k. k \<notin> Name ` set ns \<longrightarrow> map_of b k = map_of a k)"

definition boundWithin ::
  "(node \<Rightarrow> string \<Rightarrow> bool) \<Rightarrow> node list \<Rightarrow> assignment \<Rightarrow> bool" where
  "boundWithin Q ns a = (\<forall>n \<in> set ns. \<exists>v. map_of a (Name n) = Some v \<and> Q n v)"

definition searchInvariant ::
  "(node \<Rightarrow> string \<Rightarrow> bool) \<Rightarrow> node list \<Rightarrow> assignment \<Rightarrow> search \<Rightarrow> bool" where
  "searchInvariant Q ns smp res =
     (case res of
        Found a r \<Rightarrow> unchangedOutside ns smp a \<and> boundWithin Q ns a
      | NotFound a r \<Rightarrow> unchangedOutside ns smp a
      | Aborted p \<Rightarrow> True)"

section \<open>Concrete inputs\<close>

text \<open>
  The two-node network of the test suite (\<open>A\<close> with \<open>P(a1) = 0.6\<close>, \<open>B\<close> with parent
  \<open>A\<close>), with a \<open>skip\<close> branch added to the table of \<open>B\<close>; a node whose table is
  empty; and the random source whose every draw is \<open>0\<close>.
\<close>

definition toyNodeA :: node where
  "toyNodeA = \<lparr>Name = ''A'', ParentNames = [], PossibleValues = [''a1'', ''a2''],
     ConditionalProbs = [(''a1'', JNum 0.6), (''a2'', JNum 0.4)]\<rparr>"

definition toyNodeB :: node where
  "toyNodeB = \<lparr>Name = ''B'', ParentNames = [''A''], PossibleValues = [''b1'', ''b2''],
     ConditionalProbs =
       [(''deeper'', JObj [(''a1'', JObj [(''b1'', JNum 0.7), (''b2'', JNum 0.3)]),
                           (''a2'', JObj [(''b1'', JNum 0.2), (''b2'', JNum 0.8)])]),
        (''skip'', JObj [(''b1'', JNum 0.5), (''b2'', JNum 0.5)])]\<rparr>"

definition toyNetwork :: bayesianNetwork where
  "toyNetwork = \<lparr>NodesInSamplingOrder = [toyNodeA, toyNodeB]\<rparr>"

definition emptyLeafNode :: node where
  "emptyLeafNode = \<lparr>Name = ''E'', ParentNames = [], PossibleValues = [''e1''],
     ConditionalProbs = []\<rparr>"

definition zeroDraws :: rng where
  "zeroDraws = (\<lambda>i. 0)"

section \<open>Strings\<close>

text \<open>
  Strings are byte lists. \<open>strings.HasPrefix\<close>, \<open>strings.Split\<close> with a one-byte
  separator (the generator splits on \<open>|\<close>, \<open>/\<close> and \<open>.\<close> only) and \<open>strings.Join\<close>.
  \<open>Split\<close> never returns the empty list: the last equation's second case is unreachable.
\<close>

definition HasPrefix :: "string \<Rightarrow> string \<Rightarrow> bool" where
  "HasPrefix s prefix = (take (length prefix) s = prefix)"

fun Split :: "string \<Rightarrow> char \<Rightarrow> string list" where
  "Split [] sep = [[]]"
| "Split (c # cs) sep =
     (if c = sep then [] # Split cs sep
      else (case Split cs sep of
              p # ps \<Rightarrow> (c # p) # ps
            | [] \<Rightarrow> [[c]]))"

fun Join :: "string list \<Rightarrow> string \<Rightarrow> string" where
  "Join [] sep = []"
| "Join [p] sep = p"
| "Join (p # q # ps) sep = p @ sep @ Join (q # ps) sep"

text \<open>
  Letter case on ASCII: \<open>strings.ToLower\<close>, and the title casing of
  \<open>cases.Title(language.Und)\<close> on words separated by non-letters. \<open>pascalizeHeaders\<close>
  calls \<open>pascalizeKey\<close> only on keys whose lower case is one of the names of its closed
  list, which are made of ASCII letters and \<open>-\<close>.
\<close>

definition upperLetters :: string where
  "upperLetters = ''ABCDEFGHIJKLMNOPQRSTUVWXYZ''"

definition lowerLetters :: string where
  "lowerLetters = ''abcdefghijklmnopqrstuvwxyz''"

definition toLowerChar :: "char \<Rightarrow> char" where
  "toLowerChar c = (case map_of (zip upperLetters lowerLetters) c of Some l \<Rightarrow> l | None \<Rightarrow> c)"

definition toUpperChar :: "char \<Rightarrow> char" where
  "toUpperChar c = (case map_of (zip lowerLetters upperLetters) c of Some u \<Rightarrow> u | None \<Rightarrow> c)"

definition isLetter :: "char \<Rightarrow> bool" where
  "isLetter c = (c \<in> set upperLetters \<or> c \<in> set lowerLetters)"

definition ToLower :: "string \<Rightarrow> string" where
  "ToLower s = map toLowerChar s"

fun titleFrom :: "bool \<Rightarrow> string \<Rightarrow> string" where
  "titleFrom wordStart [] = []"
| "titleFrom wordStart (c # cs) =
     (if isLetter c
      then (if wordStart then toUpperChar c else toLowerChar c) # titleFrom False cs
      else c # titleFrom True cs)"

definition pascalizeKey :: "string \<Rightarrow> string" where
  "pascalizeKey k = titleFrom True k"

text \<open>
  \<open>atoi\<close> is \<open>fmt.Sscanf(s, "%d", &result)\<close> with the error dropped: leading blanks
  are skipped, an optional sign and the decimal digits that follow are read, and
  \<open>result\<close> stays \<open>0\<close> when there is no digit or the number does not fit 64 bits.
\<close>

definition digitValue :: "char \<Rightarrow> nat option" where
  "digitValue c = map_of (zip ''0123456789'' [0, 1, 2, 3, 4, 5, 6, 7, 8, 9]) c"

fun readDigits :: "string \<Rightarrow> nat list" where
  "readDigits [] = []"
| "readDigits (c # cs) = (case digitValue c of Some d \<Rightarrow> d # readDigits cs | None \<Rightarrow> [])"

definition isBlank :: "char \<Rightarrow> bool" where
  "isBlank c = (c \<in> set [CHR '' '', CHR 0x09, CHR 0x0B, CHR 0x0C, CHR 0x0D])"

definition atoi :: "string \<Rightarrow> int" where
  "atoi s =
     (let t = dropWhile isBlank s;
          negative = (case t of c # _ \<Rightarrow> c = CHR ''-'' | [] \<Rightarrow> False);
          u = (case t of c # cs \<Rightarrow> (if c = CHR ''-'' \<or> c = CHR ''+'' then cs else t) | [] \<Rightarrow> t);
          ds = readDigits u;
          n = int (foldl (\<lambda>a d. 10 * a + d) 0 ds);
          i = (if negative then - n else n)
      in if ds = [] \<or> i < - (2 ^ 63) \<or> 2 ^ 63 \<le> i then 0 else i)"

section \<open>The header generator\<close>

text \<open>
  The records of the header generator. Field names follow the Go structs; the \<open>Name\<close>
  and \<open>HTTPVersion\<close> fields of \<open>BrowserSpec\<close> and \<open>httpBrowser\<close> carry a prefix, since a
  theory has one name space for fields. \<open>httpBrowser.Name\<close> is a \<open>*string\<close>: \<open>None\<close> is
  nil. The slices of pointers \<open>[]*BrowserSpec\<close> and \<open>[]*httpBrowser\<close> are lists of
  records: the loader never stores a nil pointer.
\<close>

record BrowserSpec =
  spec_Name :: string
  MinVersion :: int
  MaxVersion :: int
  spec_HTTPVersion :: string

record httpBrowser =
  browser_Name :: "string option"
  Version :: "int list"
  CompleteString :: string
  browser_HTTPVersion :: string

definition IsHTTP2 :: "httpBrowser \<Rightarrow> bool" where
  "IsHTTP2 h = (browser_HTTPVersion h = ''2'')"

definition SupportedBrowsers :: "string list" where
  "SupportedBrowsers = [''chrome'', ''firefox'', ''safari'', ''edge'']"

definition SupportedOS :: "string list" where
  "SupportedOS = [''windows'', ''macos'', ''linux'', ''android'', ''ios'']"

definition SupportedDevices :: "string list" where
  "SupportedDevices = [''desktop'', ''mobile'']"

definition SupportedHTTP :: "string list" where
  "SupportedHTTP = [''1'', ''2'']"

definition missingValueToken :: string where
  "missingValueToken = ''*MISSING_VALUE*''"

definition http1SecFetchAttributes :: "(string, string) gomap" where
  "http1SecFetchAttributes =
     [(''Sec-Fetch-Mode'', ''same-site''), (''Sec-Fetch-Dest'', ''navigate''),
      (''Sec-Fetch-Site'', ''?1''), (''Sec-Fetch-User'', ''document'')]"

definition http2SecFetchAttributes :: "(string, string) gomap" where
  "http2SecFetchAttributes =
     [(''sec-fetch-mode'', ''same-site''), (''sec-fetch-dest'', ''navigate''),
      (''sec-fetch-site'', ''?1''), (''sec-fetch-user'', ''document'')]"

record HeaderConstraints =
  BrowserSpecs :: "BrowserSpec list"
  Browsers :: "string list"
  OS :: "string list"
  Devices :: "string list"
  Locales :: "string list"
  HTTPVersion :: string
  Strict :: bool

record HeaderGenerator =
  headerGeneratorNetwork :: bayesianNetwork
  inputGeneratorNetwork :: bayesianNetwork
  headersOrder :: "(string, string list) gomap"
  uniqueBrowsers :: "httpBrowser list"
  options :: HeaderConstraints

definition defaultHeaderOptions :: HeaderConstraints where
  "defaultHeaderOptions =
     \<lparr>BrowserSpecs = [], Browsers = SupportedBrowsers, OS = SupportedOS,
      Devices = SupportedDevices, Locales = [''en-US''], HTTPVersion = ''2'', Strict = False\<rparr>"

text \<open>Errors returned as values (\<open>fmt.Errorf\<close>), by the place that makes them.\<close>

datatype error =
    NotSupported string
  | ValuesNotSupported "string list"
  | ValidationErrors "error list"
  | NoHeadersForInput
  | FailedToGenerateHeaders error
  | NoUserAgent
  | NoFingerprint

subsection \<open>Merging the options\<close>

definition validateAgainstSupported :: "string \<Rightarrow> string list \<Rightarrow> error option" where
  "validateAgainstSupported v supported =
     (if v \<in> set supported then None else Some (NotSupported v))"

definition filterValidValues :: "string list \<Rightarrow> string list \<Rightarrow> string list \<times> error option" where
  "filterValidValues vs supported =
     (if vs = [] then ([], None)
      else
        (let invalidValues = filter (\<lambda>v. validateAgainstSupported v supported \<noteq> None) vs;
             valid = filter (\<lambda>v. validateAgainstSupported v supported = None) vs
         in if invalidValues \<noteq> [] then (valid, Some (ValuesNotSupported invalidValues))
            else (valid, None)))"

text \<open>
  The closure \<open>validateAndMerge\<close>: it returns the new value of the field it sets and
  the new list of validation errors.
\<close>

definition validateAndMerge ::
  "string list \<Rightarrow> string list \<Rightarrow> string list \<Rightarrow> error list \<Rightarrow> string list \<times> error list" where
  "validateAndMerge userValues supported current validationErrors =
     (if userValues = [] then (current, validationErrors)
      else
        (case filterValidValues userValues supported of
           (valid, err) \<Rightarrow>
             (if valid \<noteq> [] then valid else current,
              case err of Some e \<Rightarrow> validationErrors @ [e] | None \<Rightarrow> validationErrors)))"

text \<open>\<open>mergeOptions\<close> returns the merged constraints with the error, if any.\<close>

definition mergeOptions ::
  "HeaderGenerator \<Rightarrow> HeaderConstraints \<Rightarrow> HeaderConstraints \<times> error option" where
  "mergeOptions g userOptions =
     (let merged = options g in
      case validateAndMerge (Browsers userOptions) SupportedBrowsers (Browsers merged) [] of
        (browsers, errs1) \<Rightarrow>
      case validateAndMerge (OS userOptions) SupportedOS (OS merged) errs1 of
        (os, errs2) \<Rightarrow>
      case validateAndMerge (Devices userOptions) SupportedDevices (Devices merged) errs2 of
        (devices, errs3) \<Rightarrow>
      let locales =
            (if Locales userOptions \<noteq> [] then take 10 (Locales userOptions) else Locales merged)
      in
      case (if HTTPVersion userOptions \<noteq> []
            then (case validateAgainstSupported (HTTPVersion userOptions) SupportedHTTP of
                    Some e \<Rightarrow> (HTTPVersion merged, errs3 @ [e])
                  | None \<Rightarrow> (HTTPVersion userOptions, errs3))
            else (HTTPVersion merged, errs3)) of
        (httpVersion, errs4) \<Rightarrow>
      (\<lparr>BrowserSpecs = BrowserSpecs userOptions, Browsers = browsers, OS = os,
        Devices = devices, Locales = locales, HTTPVersion = httpVersion,
        Strict = Strict userOptions\<rparr>,
       if errs4 \<noteq> [] then Some (ValidationErrors errs4) else None))"

subsection \<open>Translating the constraints\<close>

definition prepareHttpBrowserObject :: "string \<Rightarrow> httpBrowser option" where
  "prepareHttpBrowserObject httpBrowserString =
     (if httpBrowserString = missingValueToken
      then Some \<lparr>browser_Name = None, Version = [], CompleteString = missingValueToken,
                 browser_HTTPVersion = []\<rparr>
      else
        (case Split httpBrowserString (CHR ''|'') of
           [browserString, httpVersion] \<Rightarrow>
             (case Split browserString (CHR ''/'') of
                [browserName, versionString] \<Rightarrow>
                  Some \<lparr>browser_Name = Some browserName,
                        Version = map atoi (Split versionString (CHR ''.'')),
                        CompleteString = httpBrowserString,
                        browser_HTTPVersion = httpVersion\<rparr>
              | _ \<Rightarrow> None)
         | _ \<Rightarrow> None))"

text \<open>\<open>uniqueBrowser.Version[0]\<close> panics on an empty version list.\<close>

definition firstVersion :: "httpBrowser \<Rightarrow> panic + int" where
  "firstVersion u = (case Version u of [] \<Rightarrow> Inl IndexOutOfRange | major # _ \<Rightarrow> Inr major)"

text \<open>
  The two version checks of the loop over the browser specifications: \<open>Inr False\<close> is
  \<open>continue\<close>. The index is evaluated only when the bound is positive.
\<close>

definition versionInRange :: "BrowserSpec \<Rightarrow> httpBrowser \<Rightarrow> panic + bool" where
  "versionInRange browser u =
     (case (if MinVersion browser > 0
            then (case firstVersion u of
                    Inl p \<Rightarrow> Inl p
                  | Inr major \<Rightarrow> Inr (\<not> major < MinVersion browser))
            else Inr True) of
        Inl p \<Rightarrow> Inl p
      | Inr False \<Rightarrow> Inr False
      | Inr True \<Rightarrow>
          (if MaxVersion browser > 0
           then (case firstVersion u of
                   Inl p \<Rightarrow> Inl p
                 | Inr major \<Rightarrow> Inr (\<not> major > MaxVersion browser))
           else Inr True))"

fun matchSpec :: "BrowserSpec \<Rightarrow> httpBrowser list \<Rightarrow> panic + string list" where
  "matchSpec browser [] = Inr []"
| "matchSpec browser (u # us) =
     (if browser_Name u = Some (spec_Name browser) \<and>
         (spec_HTTPVersion browser = browser_HTTPVersion u \<or> spec_HTTPVersion browser = [])
      then (case versionInRange browser u of
              Inl p \<Rightarrow> Inl p
            | Inr keep \<Rightarrow>
                (case matchSpec browser us of
                   Inl p \<Rightarrow> Inl p
                 | Inr found \<Rightarrow> Inr (if keep then CompleteString u # found else found)))
      else matchSpec browser us)"

fun matchSpecs :: "BrowserSpec list \<Rightarrow> httpBrowser list \<Rightarrow> panic + string list" where
  "matchSpecs [] us = Inr []"
| "matchSpecs (browser # rest) us =
     (case matchSpec browser us of
        Inl p \<Rightarrow> Inl p
      | Inr found \<Rightarrow>
          (case matchSpecs rest us of Inl p \<Rightarrow> Inl p | Inr others \<Rightarrow> Inr (found @ others)))"

definition matchName :: "string \<Rightarrow> string \<Rightarrow> httpBrowser list \<Rightarrow> string list" where
  "matchName browserName httpVersion us =
     map CompleteString
       (filter (\<lambda>u. browser_Name u = Some browserName \<and>
                     (httpVersion = browser_HTTPVersion u \<or> httpVersion = [])) us)"

definition getBrowserHTTPOptions :: "HeaderGenerator \<Rightarrow> HeaderConstraints \<Rightarrow> panic + string list" where
  "getBrowserHTTPOptions g opts =
     (if BrowserSpecs opts \<noteq> [] then matchSpecs (BrowserSpecs opts) (uniqueBrowsers g)
      else Inr (concat (map (\<lambda>browserName. matchName browserName (HTTPVersion opts)
                                (uniqueBrowsers g)) (Browsers opts))))"

definition getPossibleAttributeValues ::
  "HeaderGenerator \<Rightarrow> HeaderConstraints \<Rightarrow> panic + (string, string list) gomap" where
  "getPossibleAttributeValues g opts =
     (case getBrowserHTTPOptions g opts of
        Inl p \<Rightarrow> Inl p
      | Inr browserHTTP \<Rightarrow>
          Inr ([(''*BROWSER_HTTP'', browserHTTP)] @
               (if OS opts \<noteq> [] then [(''*OPERATING_SYSTEM'', OS opts)] else []) @
               (if Devices opts \<noteq> [] then [(''*DEVICE'', Devices opts)] else [])))"

definition index_list :: "(string, string list) gomap \<Rightarrow> string \<Rightarrow> string list" where
  "index_list m k = (case map_of m k of Some vs \<Rightarrow> vs | None \<Rightarrow> [])"

definition filterBrowserHTTP ::
  "string \<Rightarrow> (string, string list) gomap \<Rightarrow> (string, string list) gomap \<Rightarrow> bool" where
  "filterBrowserHTTP v http1Values http2Values =
     (case Split v (CHR ''|'') of
        [browserString, httpVersion] \<Rightarrow>
          (case Split browserString (CHR ''/'') of
             [browserName, versionString] \<Rightarrow>
               (if httpVersion = ''1''
                then (if http1Values = [] then True
                      else browserName \<in> set (index_list http1Values ''*BROWSER''))
                else (if http2Values = [] then True
                      else browserName \<in> set (index_list http2Values ''*BROWSER'')))
           | _ \<Rightarrow> False)
      | _ \<Rightarrow> False)"

definition filterOtherValues ::
  "string \<Rightarrow> (string, string list) gomap \<Rightarrow> (string, string list) gomap \<Rightarrow> string \<Rightarrow> bool" where
  "filterOtherValues v http1Values http2Values k =
     (if http1Values = [] \<and> http2Values = [] then True
      else if (case map_of http1Values k of Some vs \<Rightarrow> v \<in> set vs | None \<Rightarrow> False) then True
      else if (case map_of http2Values k of Some vs \<Rightarrow> v \<in> set vs | None \<Rightarrow> False) then True
      else False)"

text \<open>
  \<open>prepareConstraints\<close> never returns an error; it panics where
  \<open>getBrowserHTTPOptions\<close> does.
\<close>

definition prepareConstraints ::
  "HeaderGenerator \<Rightarrow> HeaderConstraints \<Rightarrow> panic + (string, string list) gomap" where
  "prepareConstraints g opts =
     (case getPossibleAttributeValues g opts of
        Inl p \<Rightarrow> Inl p
      | Inr possibleAttributeValues \<Rightarrow>
          (let http1Values = [(''*BROWSER'', Browsers opts), (''*OPERATING_SYSTEM'', OS opts),
                              (''*DEVICE'', Devices opts)];
               http2Values = [(''*BROWSER'', Browsers opts), (''*OPERATING_SYSTEM'', OS opts),
                              (''*DEVICE'', Devices opts)]
           in Inr (fold (\<lambda>(k, vs) constraints.
                      (let filteredValues =
                             filter (\<lambda>v. if k = ''*BROWSER_HTTP''
                                          then filterBrowserHTTP v http1Values http2Values
                                          else filterOtherValues v http1Values http2Values k) vs
                       in if filteredValues \<noteq> [] then AList.update k filteredValues constraints
                          else constraints))
                    possibleAttributeValues [])))"

subsection \<open>Post-processing the sample\<close>

definition generateHeadersFromSample :: "assignment \<Rightarrow> (string, string) gomap" where
  "generateHeadersFromSample smp =
     fold (\<lambda>(k, v) headers.
             if \<not> HasPrefix k ''*'' \<and> v \<noteq> missingValueToken then AList.update k v headers
             else headers)
       smp []"

text \<open>
  \<open>fmt.Sprintf("%.1f", 1.0 - float64(i)*0.1)\<close> for \<open>i < 10\<close>: the float differs from the
  decimal \<open>(10 - i) / 10\<close> by far less than \<open>0.05\<close>, so one decimal digit prints that
  decimal. The model formats the number of tenths.
\<close>

definition digitChar :: "nat \<Rightarrow> char" where
  "digitChar d = ''0123456789'' ! d"

definition formatTenths :: "nat \<Rightarrow> string" where
  "formatTenths t = [digitChar (t div 10), CHR ''.'', digitChar (t mod 10)]"

fun acceptLanguageParts :: "nat \<Rightarrow> string list \<Rightarrow> string list" where
  "acceptLanguageParts i [] = []"
| "acceptLanguageParts i (locale # rest) =
     (if i \<ge> 10 then []
      else (locale @ '';q='' @ formatTenths (10 - i)) # acceptLanguageParts (Suc i) rest)"

definition generateAcceptLanguageHeader :: "string list \<Rightarrow> string" where
  "generateAcceptLanguageHeader locales = Join (acceptLanguageParts 0 locales) '', ''"

text \<open>The step "Add Accept-Language header" of \<open>GenerateHeaders\<close>.\<close>

definition addAcceptLanguage ::
  "HeaderConstraints \<Rightarrow> assignment \<Rightarrow> (string, string) gomap \<Rightarrow> (string, string) gomap" where
  "addAcceptLanguage constraints smp headers =
     (if Locales constraints \<noteq> []
      then (let acceptLanguage = generateAcceptLanguageHeader (Locales constraints)
            in if index_str smp ''*HTTP_VERSION'' = ''2''
               then AList.update ''accept-language'' acceptLanguage headers
               else AList.update ''Accept-Language'' acceptLanguage headers)
      else headers)"

definition shouldAddSecFetch :: "httpBrowser option \<Rightarrow> bool" where
  "shouldAddSecFetch browser =
     (case browser of
        None \<Rightarrow> False
      | Some b \<Rightarrow>
          (case browser_Name b of
             None \<Rightarrow> False
           | Some name \<Rightarrow>
               (case Version b of
                  [] \<Rightarrow> False
                | major # _ \<Rightarrow>
                    (if name = ''chrome'' then major \<ge> 76
                     else if name = ''firefox'' then major \<ge> 90
                     else if name = ''edge'' then major \<ge> 79
                     else False))))"

text \<open>The step "Add Sec-Fetch headers if needed" of \<open>GenerateHeaders\<close>.\<close>

definition addSecFetch :: "assignment \<Rightarrow> (string, string) gomap \<Rightarrow> (string, string) gomap" where
  "addSecFetch smp headers =
     (let browser = prepareHttpBrowserObject (index_str smp ''*BROWSER_HTTP'') in
      case browser of
        None \<Rightarrow> headers
      | Some b \<Rightarrow>
          (if shouldAddSecFetch browser
           then (if IsHTTP2 b
                 then fold (\<lambda>(k, v) h. AList.update k v h) http2SecFetchAttributes headers
                 else fold (\<lambda>(k, v) h. AList.update k v h) http1SecFetchAttributes headers)
           else headers))"

definition pascalizedNames :: "string list" where
  "pascalizedNames =
     [''user-agent'', ''accept-language'', ''accept-encoding'', ''accept'',
      ''content-type'', ''content-length'', ''connection'', ''host'', ''referer'',
      ''origin'', ''cache-control'', ''pragma'', ''upgrade-insecure-requests'',
      ''sec-fetch-mode'', ''sec-fetch-dest'', ''sec-fetch-site'', ''sec-fetch-user'']"

definition pascalizeHeaders :: "(string, string) gomap \<Rightarrow> (string, string) gomap" where
  "pascalizeHeaders headers =
     fold (\<lambda>(k, v) h.
             if ToLower k \<in> set pascalizedNames then AList.update (pascalizeKey k) v h
             else AList.update k v h)
       headers []"

subsection \<open>\<open>GenerateHeaders\<close>\<close>

text \<open>
  What a call gives back: a panic, an error with the state of the random source, or a
  value with it. \<open>GenerateHeaders\<close> returns a map that may be nil: \<open>None\<close> is the nil
  map of \<open>return nil, nil\<close>.
\<close>

datatype 'a outcome = Panicked panic | Failed error rng | Returned 'a rng

text \<open>
  \<open>return pascalizeHeaders(headers), nil\<close> after a recursive call that returned no
  error; ranging over a nil map visits nothing.
\<close>

definition pascalizeRetried ::
  "(string, string) gomap option outcome \<Rightarrow> (string, string) gomap option outcome" where
  "pascalizeRetried res =
     (case res of
        Panicked p \<Rightarrow> Panicked p
      | Failed err r \<Rightarrow> Failed err r
      | Returned headers r \<Rightarrow>
          Returned (Some (pascalizeHeaders (case headers of None \<Rightarrow> [] | Some h \<Rightarrow> h))) r)"

text \<open>The part of \<open>GenerateHeaders\<close> after a successful input sample.\<close>

definition headersFromInputSample ::
  "HeaderGenerator \<Rightarrow> HeaderConstraints \<Rightarrow> assignment \<Rightarrow> rng
     \<Rightarrow> (string, string) gomap option outcome" where
  "headersFromInputSample g constraints inputSample r =
     (case generateSample (headerGeneratorNetwork g) inputSample r of
        (Inl p, r') \<Rightarrow> Panicked p
      | (Inr smp, r') \<Rightarrow>
          (let headers = generateHeadersFromSample smp;
               headers = addAcceptLanguage constraints smp headers;
               headers = addSecFetch smp headers
           in if HTTPVersion constraints = ''2''
              then Returned (Some (pascalizeHeaders headers)) r'
              else Returned None r'))"

text \<open>
  \<open>GenerateHeaders\<close> calls itself in its fallback chain; a call that never returns
  is \<open>None\<close>.
\<close>

partial_function (option) GenerateHeaders ::
  "HeaderGenerator \<Rightarrow> HeaderConstraints \<Rightarrow> rng
     \<Rightarrow> (string, string) gomap option outcome option" where
  "GenerateHeaders g opts r =
     (case mergeOptions g opts of
        (constraints, Some err) \<Rightarrow> Some (Failed err r)
      | (constraints, None) \<Rightarrow>
          (case prepareConstraints g constraints of
             Inl p \<Rightarrow> Some (Panicked p)
           | Inr inputConstraints \<Rightarrow>
               Option.bind
                 (generateConsistentSampleWhenPossible (inputGeneratorNetwork g) inputConstraints r)
                 (\<lambda>found. case found of
                    Aborted p \<Rightarrow> Some (Panicked p)
                  | Found inputSample r1 \<Rightarrow>
                      Some (headersFromInputSample g constraints inputSample r1)
                  | NotFound smp r1 \<Rightarrow>
                      (if HTTPVersion constraints = ''1''
                       then Option.bind
                              (GenerateHeaders g (constraints\<lparr>HTTPVersion := ''2''\<rparr>) r1)
                              (\<lambda>res. Some (pascalizeRetried res))
                       else if Strict constraints then Some (Failed NoHeadersForInput r1)
                       else Option.bind
                              (GenerateHeaders g (constraints\<lparr>Locales := [], Devices := []\<rparr>) r1)
                              (\<lambda>res. Some (pascalizeRetried res))))))"

section \<open>The fingerprint generator\<close>

text \<open>
  \<open>screen\<close> is a \<open>*Screen\<close> with pointer fields: \<open>None\<close> is nil. A \<open>FingerprintOption\<close>
  is a function that assigns to a field of the generator it is given.
\<close>

record Screen =
  MinWidth :: "int option"
  MaxWidth :: "int option"
  MinHeight :: "int option"
  MaxHeight :: "int option"

record FingerprintGenerator =
  network :: bayesianNetwork
  headerGenerator :: HeaderGenerator
  headerConstraints :: HeaderConstraints
  screen :: "Screen option"
  strict :: bool
  mockWebRTC :: bool
  slim :: bool

type_synonym FingerprintOption = "FingerprintGenerator \<Rightarrow> FingerprintGenerator"

definition WithScreen :: "Screen option \<Rightarrow> FingerprintOption" where
  "WithScreen s = (\<lambda>g. g\<lparr>screen := s\<rparr>)"

definition WithStrict :: "bool \<Rightarrow> FingerprintOption" where
  "WithStrict b = (\<lambda>g. g\<lparr>strict := b\<rparr>)"

definition WithMockWebRTC :: "bool \<Rightarrow> FingerprintOption" where
  "WithMockWebRTC b = (\<lambda>g. g\<lparr>mockWebRTC := b\<rparr>)"

definition WithSlim :: "bool \<Rightarrow> FingerprintOption" where
  "WithSlim b = (\<lambda>g. g\<lparr>slim := b\<rparr>)"

definition WithHeaderConstraints :: "HeaderConstraints \<Rightarrow> FingerprintOption" where
  "WithHeaderConstraints constraints = (\<lambda>g. g\<lparr>headerConstraints := constraints\<rparr>)"

text \<open>
  \<open>Generate\<close> applies the options to the generator it is called on, so the model
  returns the generator with the outcome. \<open>transformFingerprint\<close> decodes JSON with the
  standard library and assigns to no field of the generator: it is the parameter
  \<open>transform\<close>, given the raw fingerprint, the headers and the two flags.
\<close>

definition Generate ::
  "(assignment \<Rightarrow> (string, string) gomap \<Rightarrow> bool \<Rightarrow> bool \<Rightarrow> error + 'fp)
     \<Rightarrow> FingerprintGenerator \<Rightarrow> FingerprintOption list \<Rightarrow> rng
     \<Rightarrow> (FingerprintGenerator \<times> 'fp outcome) option" where
  "Generate transform g0 opts r =
     (let g = fold (\<lambda>opt g. opt g) opts g0;
          finish = (\<lambda>fingerprint headers r'.
             case transform fingerprint headers (mockWebRTC g) (slim g) of
               Inl err \<Rightarrow> Failed err r'
             | Inr fp \<Rightarrow> Returned fp r')
      in Option.bind (GenerateHeaders (headerGenerator g) (headerConstraints g) r)
           (\<lambda>res. case res of
              Panicked p \<Rightarrow> Some (g, Panicked p)
            | Failed err r1 \<Rightarrow> Some (g, Failed (FailedToGenerateHeaders err) r1)
            | Returned nilOrHeaders r1 \<Rightarrow>
                (let headers = (case nilOrHeaders of None \<Rightarrow> [] | Some h \<Rightarrow> h);
                     userAgent = index_str headers ''User-Agent''
                 in if userAgent = [] then Some (g, Failed NoUserAgent r1)
                    else Option.bind
                           (generateConsistentSampleWhenPossible (network g)
                              [(''userAgent'', [userAgent])] r1)
                           (\<lambda>found. case found of
                              Aborted p \<Rightarrow> Some (g, Panicked p)
                            | Found fingerprint r2 \<Rightarrow> Some (g, finish fingerprint headers r2)
                            | NotFound smp r2 \<Rightarrow>
                                (if strict g then Some (g, Failed NoFingerprint r2)
                                 else (case generateSample (network g) [] r2 of
                                         (Inl p, r3) \<Rightarrow> Some (g, Panicked p)
                                       | (Inr fingerprint, r3) \<Rightarrow>
                                           Some (g, finish fingerprint headers r3)))))))"

section \<open>Auxiliary definitions and concrete inputs for the header generator\<close>

text \<open>The validation error \<open>filterValidValues\<close> makes for a list of user values, if any.\<close>

definition unsupportedError :: "string list \<Rightarrow> string list \<Rightarrow> error list" where
  "unsupportedError supported vs =
     (if filter (\<lambda>v. v \<notin> set supported) vs \<noteq> []
      then [ValuesNotSupported (filter (\<lambda>v. v \<notin> set supported) vs)] else [])"

text \<open>
  The zero value \<open>HeaderConstraints{}\<close>, and a small generator: an input network of
  three independent nodes, a header network whose \<open>*HTTP_VERSION\<close> follows the browser,
  and the table of unique browsers of the input network's values.
\<close>

definition emptyConstraints :: HeaderConstraints where
  "emptyConstraints =
     \<lparr>BrowserSpecs = [], Browsers = [], OS = [], Devices = [], Locales = [],
      HTTPVersion = [], Strict = False\<rparr>"

definition rootNode :: "string \<Rightarrow> (string \<times> real) list \<Rightarrow> node" where
  "rootNode name weights =
     \<lparr>Name = name, ParentNames = [], PossibleValues = map fst weights,
      ConditionalProbs = map (\<lambda>(v, p). (v, JNum p)) weights\<rparr>"

definition toyInputNetwork :: bayesianNetwork where
  "toyInputNetwork = \<lparr>NodesInSamplingOrder =
     [rootNode ''*BROWSER_HTTP''
        [(''chrome/131.0.0.0|2'', 0.5), (''safari/17.0|2'', 0.3), (''chrome/131.0.0.0|1'', 0.2)],
      rootNode ''*OPERATING_SYSTEM'' [(''windows'', 0.7), (''macos'', 0.3)],
      rootNode ''*DEVICE'' [(''desktop'', 0.8), (''mobile'', 0.2)]]\<rparr>"

definition httpVersionNode :: node where
  "httpVersionNode =
     \<lparr>Name = ''*HTTP_VERSION'', ParentNames = [''*BROWSER_HTTP''], PossibleValues = [''1'', ''2''],
      ConditionalProbs =
        [(''deeper'', JObj [(''chrome/131.0.0.0|1'', JObj [(''1'', JNum 1)])]),
         (''skip'', JObj [(''2'', JNum 1)])]\<rparr>"

definition toyHeaderNetwork :: bayesianNetwork where
  "toyHeaderNetwork = \<lparr>NodesInSamplingOrder =
     [httpVersionNode,
      rootNode ''user-agent'' [(''Mozilla/5.0'', 1)],
      rootNode ''dnt'' [(''*MISSING_VALUE*'', 1)]]\<rparr>"

definition toyUniqueBrowsers :: "httpBrowser list" where
  "toyUniqueBrowsers =
     [\<lparr>browser_Name = Some ''chrome'', Version = [131, 0, 0, 0],
       CompleteString = ''chrome/131.0.0.0|2'', browser_HTTPVersion = ''2''\<rparr>,
      \<lparr>browser_Name = Some ''safari'', Version = [17, 0],
       CompleteString = ''safari/17.0|2'', browser_HTTPVersion = ''2''\<rparr>,
      \<lparr>browser_Name = Some ''chrome'', Version = [131, 0, 0, 0],
       CompleteString = ''chrome/131.0.0.0|1'', browser_HTTPVersion = ''1''\<rparr>]"

definition toyGenerator :: HeaderGenerator where
  "toyGenerator =
     \<lparr>headerGeneratorNetwork = toyHeaderNetwork, inputGeneratorNetwork = toyInputNetwork,
      headersOrder = [], uniqueBrowsers = toyUniqueBrowsers, options = defaultHeaderOptions\<rparr>"

text \<open>
  The names of the four Sec-Fetch headers, in lower case and in title case, and the name
  a key has after \<open>pascalizeHeaders\<close>.
\<close>

definition secFetchNames :: "string list" where
  "secFetchNames = [''sec-fetch-mode'', ''sec-fetch-dest'', ''sec-fetch-site'', ''sec-fetch-user'']"

definition secFetchTitleNames :: "string list" where
  "secFetchTitleNames = [''Sec-Fetch-Mode'', ''Sec-Fetch-Dest'', ''Sec-Fetch-Site'', ''Sec-Fetch-User'']"

definition casedName :: "string \<Rightarrow> string" where
  "casedName k = (if ToLower k \<in> set pascalizedNames then pascalizeKey k else k)"

text \<open>
  A fingerprint generator over the two-node network and the small header generator, and
  a decoder that returns its four arguments as they are.
\<close>

definition toyFingerprintGenerator :: FingerprintGenerator where
  "toyFingerprintGenerator =
     \<lparr>network = toyNetwork, headerGenerator = toyGenerator, headerConstraints = emptyConstraints,
      screen = None, strict = False, mockWebRTC = False, slim = False\<rparr>"

definition keepRaw ::
  "assignment \<Rightarrow> (string, string) gomap \<Rightarrow> bool \<Rightarrow> bool
     \<Rightarrow> error + (assignment \<times> (string, string) gomap \<times> bool \<times> bool)" where
  "keepRaw fingerprint headers mock slimFlag = Inr (fingerprint, headers, mock, slimFlag)"

text \<open>
  A generator whose header network has nodes named after the four Sec-Fetch headers.
\<close>

definition secFetchHeaderNetwork :: bayesianNetwork where
  "secFetchHeaderNetwork = \<lparr>NodesInSamplingOrder =
     [httpVersionNode,
      rootNode ''user-agent'' [(''Mozilla/5.0'', 1)],
      rootNode ''sec-fetch-mode'' [(''navigate'', 1)],
      rootNode ''sec-fetch-dest'' [(''document'', 1)],
      rootNode ''sec-fetch-site'' [(''none'', 1)],
      rootNode ''sec-fetch-user'' [(''?1'', 1)]]\<rparr>"

definition secFetchGenerator :: HeaderGenerator where
  "secFetchGenerator = toyGenerator\<lparr>headerGeneratorNetwork := secFetchHeaderNetwork\<rparr>"

section \<open>Lemmas about the samplers\<close>

subsection \<open>Maps\<close>

lemma hasKey_iff: "hasKey m k \<longleftrightarrow> map_of m k \<noteq> None"
  by (simp add: hasKey_def split: option.splits)

lemma hasKey_mem: "hasKey m k \<longleftrightarrow> k \<in> fst ` set m"
  by (simp add: hasKey_iff map_of_eq_None_iff)

lemma drop_nth_Cons:
  "depth < length ns \<Longrightarrow> drop depth ns = ns ! depth # drop (Suc depth) ns"
  by (simp add: Cons_nth_drop_Suc)

subsection \<open>The weighted sampler\<close>

lemma scanCumulative_mem:
  "scanCumulative anchor probs c vs = Some v \<Longrightarrow> v \<in> set vs"
  by (induction vs arbitrary: c) (auto simp: Let_def split: if_splits)

lemma sampleRandomValue_mem:
  "sampleRandomValueFromPossibilities vs probs r = (Inr v, r') \<Longrightarrow> v \<in> set vs"
  by (auto simp: sampleRandomValueFromPossibilities_def Float64_def
      split: option.splits list.splits dest: scanCumulative_mem)

lemma sampleRandomValue_rng:
  "sampleRandomValueFromPossibilities vs probs r = (res, r') \<Longrightarrow> r' = snd (Float64 r)"
  by (auto simp: sampleRandomValueFromPossibilities_def Float64_def
      split: option.splits list.splits)

lemma sampleRandomValue_nonempty:
  assumes "vs \<noteq> []"
  shows "\<exists>v. sampleRandomValueFromPossibilities vs probs r = (Inr v, snd (Float64 r)) \<and>
     v \<in> set vs \<and> (scanCumulative (fst (Float64 r)) probs 0 vs = None \<longrightarrow> v = hd vs)"
proof (cases "scanCumulative (fst (Float64 r)) probs 0 vs")
  case None
  from assms obtain a list where "vs = a # list" by (auto simp: neq_Nil_conv)
  with None show ?thesis
    by (simp add: sampleRandomValueFromPossibilities_def case_prod_beta del: scanCumulative.simps)
next
  case (Some v)
  then have "v \<in> set vs" by (rule scanCumulative_mem)
  with Some show ?thesis
    by (simp add: sampleRandomValueFromPossibilities_def case_prod_beta)
qed

lemma sample_value:
  assumes "sample n pv r = (Inr v, r')"
  shows "\<exists>probs. getProbabilitiesGivenKnownValues n pv = Inr probs \<and> hasKey probs v"
proof -
  from assms obtain probs where p: "getProbabilitiesGivenKnownValues n pv = Inr probs"
    and "sampleRandomValueFromPossibilities (map fst probs) probs r = (Inr v, r')"
    by (auto simp: sample_def split: sum.splits)
  then have "v \<in> set (map fst probs)" using sampleRandomValue_mem by blast
  then have "hasKey probs v"
    by (auto simp: hasKey_iff map_of_eq_None_iff)
  with p show ?thesis by blast
qed

lemma sample_returns:
  assumes "getProbabilitiesGivenKnownValues n pv = Inr probs" "probs \<noteq> []"
  shows "\<exists>v r'. sample n pv r = (Inr v, r')"
proof -
  from assms(2) have "map fst probs \<noteq> []" by simp
  from sampleRandomValue_nonempty[OF this, of probs r] assms(1) show ?thesis
    by (auto simp: sample_def)
qed

lemma sampleAccordingToRestrictions_Some:
  assumes "sampleAccordingToRestrictions n smp poss banned r = (Inr (Some v), r')"
  shows "v \<in> set poss \<and> v \<notin> set banned \<and>
         (\<exists>probs. getProbabilitiesGivenKnownValues n smp = Inr probs \<and> hasKey probs v)"
proof -
  from assms obtain probs where p: "getProbabilitiesGivenKnownValues n smp = Inr probs"
    by (auto simp: sampleAccordingToRestrictions_def split: sum.splits)
  let ?valid = "validValuesOf probs poss banned"
  from assms p obtain m where "sampleRandomValueFromPossibilities ?valid m r = (Inr v, r')"
    by (auto simp: sampleAccordingToRestrictions_def Let_def split: if_splits sum.splits prod.splits)
  then have "v \<in> set ?valid" by (rule sampleRandomValue_mem)
  with p show ?thesis by (auto simp: validValuesOf_def)
qed

lemma leafValuesPossibleD:
  assumes "leafValuesPossible bn" "n \<in> set (NodesInSamplingOrder bn)"
    "getProbabilitiesGivenKnownValues n pv = Inr probs" "hasKey probs v"
  shows "v \<in> set (PossibleValues n)"
proof -
  have "fst ` set probs \<subseteq> set (PossibleValues n)"
    using assms(1-3) unfolding leafValuesPossible_def by blast
  moreover have "v \<in> fst ` set probs" using assms(4) by (simp add: hasKey_mem)
  ultimately show ?thesis by blast
qed

subsection \<open>Unconditional sampling\<close>

lemma generateSampleLoop_keeps:
  "generateSampleLoop ns smp r = (Inr a, r') \<Longrightarrow> map_of smp k = Some v \<Longrightarrow> map_of a k = Some v"
proof (induction ns arbitrary: smp r)
  case Nil
  then show ?case by simp
next
  case (Cons n rest)
  show ?case
  proof (cases "hasKey smp (Name n)")
    case True
    with Cons show ?thesis by simp
  next
    case False
    with Cons.prems(1) obtain w r1 where w: "sample n smp r = (Inr w, r1)"
      and run: "generateSampleLoop rest (AList.update (Name n) w smp) r1 = (Inr a, r')"
      by (auto split: prod.splits sum.splits)
    from False Cons.prems(2) have "k \<noteq> Name n" by (auto simp: hasKey_iff)
    then have "map_of (AList.update (Name n) w smp) k = Some v"
      using Cons.prems(2) by (simp add: update_conv')
    with Cons.IH[OF run] show ?thesis .
  qed
qed

lemma generateSampleLoop_binds:
  assumes Q: "\<And>n pv r v r'. n \<in> N \<Longrightarrow> sample n pv r = (Inr v, r') \<Longrightarrow> Q n v"
  shows "set ns \<subseteq> N \<Longrightarrow> distinct (map Name ns) \<Longrightarrow>
     generateSampleLoop ns smp r = (Inr a, r') \<Longrightarrow> n \<in> set ns \<Longrightarrow>
     map_of smp (Name n) = None \<Longrightarrow> \<exists>v. map_of a (Name n) = Some v \<and> Q n v"
proof (induction ns arbitrary: smp r)
  case Nil
  then show ?case by simp
next
  case (Cons m rest)
  have sub: "set rest \<subseteq> N" and mN: "m \<in> N" using Cons.prems(1) by auto
  have drest: "distinct (map Name rest)" using Cons.prems(2) by simp
  show ?case
  proof (cases "hasKey smp (Name m)")
    case True
    then have "n \<noteq> m" using Cons.prems(5) by (auto simp: hasKey_iff)
    then have nrest: "n \<in> set rest" using Cons.prems(4) by simp
    from True Cons.prems(3) have run: "generateSampleLoop rest smp r = (Inr a, r')" by simp
    show ?thesis by (rule Cons.IH[OF sub drest run nrest Cons.prems(5)])
  next
    case False
    with Cons.prems(3) obtain w r1 where w: "sample m smp r = (Inr w, r1)"
      and run: "generateSampleLoop rest (AList.update (Name m) w smp) r1 = (Inr a, r')"
      by (auto split: prod.splits sum.splits)
    show ?thesis
    proof (cases "n = m")
      case True
      have "map_of (AList.update (Name m) w smp) (Name m) = Some w" by (simp add: update_conv')
      from generateSampleLoop_keeps[OF run this] have "map_of a (Name m) = Some w" .
      moreover have "Q m w" using Q[OF mN w] .
      ultimately show ?thesis using True by blast
    next
      case False
      then have nrest: "n \<in> set rest" using Cons.prems(4) by simp
      from Cons.prems(2) have "Name m \<notin> Name ` set rest" by simp
      with nrest have "Name n \<noteq> Name m" by (metis imageI)
      then have none: "map_of (AList.update (Name m) w smp) (Name n) = None"
        using Cons.prems(5) by (simp add: update_conv')
      show ?thesis by (rule Cons.IH[OF sub drest run nrest none])
    qed
  qed
qed

lemma generateSampleLoop_returns:
  assumes "\<forall>n \<in> set ns. \<forall>pv. \<exists>probs.
      getProbabilitiesGivenKnownValues n pv = Inr probs \<and> probs \<noteq> []"
  shows "\<exists>a r'. generateSampleLoop ns smp r = (Inr a, r') \<and> (\<forall>n \<in> set ns. hasKey a (Name n))"
  using assms
proof (induction ns arbitrary: smp r)
  case Nil
  then show ?case by simp
next
  case (Cons m rest)
  then have rest: "\<forall>n \<in> set rest. \<forall>pv. \<exists>probs.
      getProbabilitiesGivenKnownValues n pv = Inr probs \<and> probs \<noteq> []" by simp
  show ?case
  proof (cases "hasKey smp (Name m)")
    case True
    from Cons.IH[OF rest, of smp r] obtain a r' where
      run: "generateSampleLoop rest smp r = (Inr a, r')" and all: "\<forall>n \<in> set rest. hasKey a (Name n)"
      by blast
    from True obtain v where "map_of smp (Name m) = Some v" by (auto simp: hasKey_iff)
    from generateSampleLoop_keeps[OF run this] have "hasKey a (Name m)" by (simp add: hasKey_iff)
    with True run all show ?thesis by simp
  next
    case False
    from Cons.prems have "\<exists>probs. getProbabilitiesGivenKnownValues m smp = Inr probs \<and> probs \<noteq> []"
      by simp
    then obtain probs where
      "getProbabilitiesGivenKnownValues m smp = Inr probs" "probs \<noteq> []" by blast
    from sample_returns[OF this] obtain w r1 where w: "sample m smp r = (Inr w, r1)" by blast
    from Cons.IH[OF rest, of "AList.update (Name m) w smp" r1] obtain a r' where
      run: "generateSampleLoop rest (AList.update (Name m) w smp) r1 = (Inr a, r')"
      and all: "\<forall>n \<in> set rest. hasKey a (Name n)" by blast
    have "map_of (AList.update (Name m) w smp) (Name m) = Some w" by (simp add: update_conv')
    from generateSampleLoop_keeps[OF run this] have "hasKey a (Name m)" by (simp add: hasKey_iff)
    with False w run all show ?thesis by simp
  qed
qed

subsection \<open>The backtracking search\<close>

text \<open>
  The search is well-founded on the pair of the number of nodes left and the number of
  candidate values not banned yet. The induction rule below follows that order.
\<close>

lemma banned_grows:
  assumes "v \<in> set poss" "v \<notin> set banned"
  shows "card (set poss - set (banned @ [v])) < card (set poss - set banned)"
proof -
  have "set poss - set (banned @ [v]) \<subset> set poss - set banned"
    using assms by auto
  then show ?thesis by (simp add: psubset_card_mono)
qed

lemma recursively_induct_level:
  assumes step: "\<And>banned.
      (\<And>v. v \<in> set poss \<Longrightarrow> v \<notin> set banned \<Longrightarrow> P (banned @ [v])) \<Longrightarrow> P banned"
  shows "P banned"
proof (induction "card (set poss - set banned)" arbitrary: banned rule: less_induct)
  case less
  show ?case
  proof (rule step)
    fix v
    assume v: "v \<in> set poss" "v \<notin> set banned"
    show "P (banned @ [v])"
      using less.hyps[OF banned_grows[OF v]] .
  qed
qed

lemma recursively_induct:
  assumes step: "\<And>depth banned.
      (\<And>banned'. depth < length (NodesInSamplingOrder bn) \<Longrightarrow> P (Suc depth) banned') \<Longrightarrow>
      (\<And>v. v \<in> set (possibilitiesOf vp (NodesInSamplingOrder bn ! depth)) \<Longrightarrow>
            v \<notin> set banned \<Longrightarrow> P depth (banned @ [v])) \<Longrightarrow>
      P depth banned"
  shows "P depth banned"
proof (induction "length (NodesInSamplingOrder bn) - depth" arbitrary: depth banned)
  case 0
  show ?case
    by (rule recursively_induct_level[where P = "P depth"], rule step) (use 0 in simp_all)
next
  case (Suc k)
  then have k: "k = length (NodesInSamplingOrder bn) - Suc depth" by simp
  have up: "\<And>banned'. P (Suc depth) banned'" using Suc.hyps(1)[OF k] .
  show ?case
    by (rule recursively_induct_level[where P = "P depth"], rule step) (simp_all add: up)
qed

lemma recursively_returns:
  "\<exists>res. recursivelyGenerateConsistentSampleWhenPossible bn vp depth banned smp r = Some res"
proof -
  have "\<forall>smp r. \<exists>res.
      recursivelyGenerateConsistentSampleWhenPossible bn vp depth banned smp r = Some res"
  proof (rule recursively_induct[where bn = bn and vp = vp])
    fix depth banned
    let ?n = "NodesInSamplingOrder bn ! depth"
    let ?poss = "possibilitiesOf vp ?n"
    assume up: "\<And>banned'. depth < length (NodesInSamplingOrder bn) \<Longrightarrow> \<forall>smp r. \<exists>res.
        recursivelyGenerateConsistentSampleWhenPossible bn vp (Suc depth) banned' smp r = Some res"
      and again: "\<And>v. v \<in> set ?poss \<Longrightarrow> v \<notin> set banned \<Longrightarrow> \<forall>smp r. \<exists>res.
        recursivelyGenerateConsistentSampleWhenPossible bn vp depth (banned @ [v]) smp r = Some res"
    show "\<forall>smp r. \<exists>res.
        recursivelyGenerateConsistentSampleWhenPossible bn vp depth banned smp r = Some res"
    proof (intro allI)
      fix smp r
      show "\<exists>res.
        recursivelyGenerateConsistentSampleWhenPossible bn vp depth banned smp r = Some res"
      proof (cases "depth < length (NodesInSamplingOrder bn)")
        case False
        then show ?thesis
          by (subst recursivelyGenerateConsistentSampleWhenPossible.simps) auto
      next
        case True
        obtain out r1 where out: "sampleAccordingToRestrictions ?n smp ?poss banned r = (out, r1)"
          by (cases "sampleAccordingToRestrictions ?n smp ?poss banned r")
        show ?thesis
        proof (cases out)
          case (Inl p)
          with out True show ?thesis
            by (subst recursivelyGenerateConsistentSampleWhenPossible.simps) (simp add: Let_def)
        next
          case (Inr ov)
          show ?thesis
          proof (cases ov)
            case None
            with Inr out True show ?thesis
              by (subst recursivelyGenerateConsistentSampleWhenPossible.simps) (simp add: Let_def)
          next
            case (Some v)
            with Inr out have v: "v \<in> set ?poss" "v \<notin> set banned"
              using sampleAccordingToRestrictions_Some by blast+
            obtain res1 where res1:
              "recursivelyGenerateConsistentSampleWhenPossible bn vp (Suc depth) []
                 (AList.update (Name ?n) v smp) r1 = Some res1"
              using up[OF True] by blast
            show ?thesis
            proof (cases res1)
              case (NotFound smp2 r2)
              from again[OF v] obtain res2 where
                "recursivelyGenerateConsistentSampleWhenPossible bn vp depth (banned @ [v])
                   (AList.delete (Name ?n) smp2) r2 = Some res2" by blast
              with NotFound res1 Some Inr out True show ?thesis
                by (subst recursivelyGenerateConsistentSampleWhenPossible.simps) (simp add: Let_def)
            qed (use res1 Some Inr out True in
                \<open>subst recursivelyGenerateConsistentSampleWhenPossible.simps, simp add: Let_def\<close>)+
          qed
        qed
      qed
    qed
  qed
  then show ?thesis by blast
qed

lemma recursively_cases:
  assumes "recursivelyGenerateConsistentSampleWhenPossible bn vp depth banned smp r = Some res"
  obtains
    (complete) "depth = length (NodesInSamplingOrder bn)" "res = Found smp r"
  | (range) "depth > length (NodesInSamplingOrder bn)" "res = Aborted IndexOutOfRange"
  | (abort) p r1 where "depth < length (NodesInSamplingOrder bn)"
      "sampleAccordingToRestrictions (NodesInSamplingOrder bn ! depth) smp
         (possibilitiesOf vp (NodesInSamplingOrder bn ! depth)) banned r = (Inl p, r1)"
      "res = Aborted p"
  | (exhausted) r1 where "depth < length (NodesInSamplingOrder bn)"
      "sampleAccordingToRestrictions (NodesInSamplingOrder bn ! depth) smp
         (possibilitiesOf vp (NodesInSamplingOrder bn ! depth)) banned r = (Inr None, r1)"
      "res = NotFound smp r1"
  | (found) v r1 nextSample r2 where "depth < length (NodesInSamplingOrder bn)"
      "sampleAccordingToRestrictions (NodesInSamplingOrder bn ! depth) smp
         (possibilitiesOf vp (NodesInSamplingOrder bn ! depth)) banned r = (Inr (Some v), r1)"
      "recursivelyGenerateConsistentSampleWhenPossible bn vp (Suc depth) []
         (AList.update (Name (NodesInSamplingOrder bn ! depth)) v smp) r1
       = Some (Found nextSample r2)"
      "res = Found nextSample r2"
  | (deep_abort) v r1 p where "depth < length (NodesInSamplingOrder bn)"
      "sampleAccordingToRestrictions (NodesInSamplingOrder bn ! depth) smp
         (possibilitiesOf vp (NodesInSamplingOrder bn ! depth)) banned r = (Inr (Some v), r1)"
      "recursivelyGenerateConsistentSampleWhenPossible bn vp (Suc depth) []
         (AList.update (Name (NodesInSamplingOrder bn ! depth)) v smp) r1
       = Some (Aborted p)"
      "res = Aborted p"
  | (retry) v r1 smp2 r2 where "depth < length (NodesInSamplingOrder bn)"
      "sampleAccordingToRestrictions (NodesInSamplingOrder bn ! depth) smp
         (possibilitiesOf vp (NodesInSamplingOrder bn ! depth)) banned r = (Inr (Some v), r1)"
      "recursivelyGenerateConsistentSampleWhenPossible bn vp (Suc depth) []
         (AList.update (Name (NodesInSamplingOrder bn ! depth)) v smp) r1
       = Some (NotFound smp2 r2)"
      "recursivelyGenerateConsistentSampleWhenPossible bn vp depth (banned @ [v])
         (AList.delete (Name (NodesInSamplingOrder bn ! depth)) smp2) r2 = Some res"
  using assms
  by (subst (asm) recursivelyGenerateConsistentSampleWhenPossible.simps)
     (auto simp: Let_def split: if_splits prod.splits sum.splits option.splits search.splits
        Option.bind_splits)

lemma recursively_invariant:
  assumes dist: "distinct (map Name (NodesInSamplingOrder bn))"
    and Q: "\<And>n smp poss banned r v r'. n \<in> set (NodesInSamplingOrder bn) \<Longrightarrow>
        sampleAccordingToRestrictions n smp (possibilitiesOf vp n) banned r = (Inr (Some v), r')
        \<Longrightarrow> Q n v"
  shows "\<forall>smp r res.
      recursivelyGenerateConsistentSampleWhenPossible bn vp depth banned smp r = Some res \<longrightarrow>
      searchInvariant Q (drop depth (NodesInSamplingOrder bn)) smp res"
proof (rule recursively_induct[where bn = bn and vp = vp])
  fix depth banned
  let ?ns = "NodesInSamplingOrder bn"
  let ?n = "?ns ! depth"
  let ?poss = "possibilitiesOf vp ?n"
  assume up: "\<And>banned'. depth < length ?ns \<Longrightarrow> \<forall>smp r res.
        recursivelyGenerateConsistentSampleWhenPossible bn vp (Suc depth) banned' smp r = Some res
        \<longrightarrow> searchInvariant Q (drop (Suc depth) ?ns) smp res"
    and again: "\<And>v. v \<in> set ?poss \<Longrightarrow> v \<notin> set banned \<Longrightarrow> \<forall>smp r res.
        recursivelyGenerateConsistentSampleWhenPossible bn vp depth (banned @ [v]) smp r = Some res
        \<longrightarrow> searchInvariant Q (drop depth ?ns) smp res"
  show "\<forall>smp r res.
      recursivelyGenerateConsistentSampleWhenPossible bn vp depth banned smp r = Some res \<longrightarrow>
      searchInvariant Q (drop depth ?ns) smp res"
  proof (intro allI impI)
    fix smp r res
    assume run: "recursivelyGenerateConsistentSampleWhenPossible bn vp depth banned smp r = Some res"
    from run show "searchInvariant Q (drop depth ?ns) smp res"
    proof (cases rule: recursively_cases)
      case complete
      then show ?thesis
        by (simp add: searchInvariant_def unchangedOutside_def boundWithin_def)
    next
      case range
      then show ?thesis by (simp add: searchInvariant_def)
    next
      case (abort p r1)
      then show ?thesis by (simp add: searchInvariant_def)
    next
      case (exhausted r1)
      then show ?thesis by (simp add: searchInvariant_def unchangedOutside_def)
    next
      case (deep_abort v r1 p)
      then show ?thesis by (simp add: searchInvariant_def)
    next
      case (found v r1 nextSample r2)
      have split: "drop depth ?ns = ?n # drop (Suc depth) ?ns"
        using found(1) by (rule drop_nth_Cons)
      have "distinct (map Name (drop depth ?ns))"
        using dist by (simp add: distinct_drop flip: drop_map)
      then have fresh: "Name ?n \<notin> Name ` set (drop (Suc depth) ?ns)"
        by (simp add: split)
      have qv: "Q ?n v"
        using Q[OF _ found(2)] found(1) by simp
      from up[OF found(1)] found(3)
      have inv: "searchInvariant Q (drop (Suc depth) ?ns) (AList.update (Name ?n) v smp)
                   (Found nextSample r2)" by blast
      then have fr: "unchangedOutside (drop (Suc depth) ?ns) (AList.update (Name ?n) v smp) nextSample"
        and bw: "boundWithin Q (drop (Suc depth) ?ns) nextSample"
        by (simp_all add: searchInvariant_def)
      from fr fresh have here: "map_of nextSample (Name ?n) = Some v"
        by (simp add: unchangedOutside_def update_conv')
      have "unchangedOutside (drop depth ?ns) smp nextSample"
        using fr by (auto simp: unchangedOutside_def split update_conv')
      moreover have "boundWithin Q (drop depth ?ns) nextSample"
        using bw here qv by (auto simp: boundWithin_def split)
      ultimately show ?thesis
        using found(4) by (simp add: searchInvariant_def)
    next
      case (retry v r1 smp2 r2)
      have split: "drop depth ?ns = ?n # drop (Suc depth) ?ns"
        using retry(1) by (rule drop_nth_Cons)
      have v: "v \<in> set ?poss" "v \<notin> set banned"
        using sampleAccordingToRestrictions_Some[OF retry(2)] by blast+
      from up[OF retry(1)] retry(3)
      have "searchInvariant Q (drop (Suc depth) ?ns) (AList.update (Name ?n) v smp)
              (NotFound smp2 r2)" by blast
      then have fr: "unchangedOutside (drop (Suc depth) ?ns) (AList.update (Name ?n) v smp) smp2"
        by (simp add: searchInvariant_def)
      have restored: "unchangedOutside (drop depth ?ns) smp (AList.delete (Name ?n) smp2)"
        using fr by (auto simp: unchangedOutside_def split update_conv' delete_conv')
      from again[OF v] retry(4)
      have inv: "searchInvariant Q (drop depth ?ns) (AList.delete (Name ?n) smp2) res" by blast
      show ?thesis
        using inv restored
        by (auto simp: searchInvariant_def unchangedOutside_def split: search.splits)
    qed
  qed
qed

subsection \<open>Runs on the concrete inputs\<close>

lemma Float64_zeroDraws: "Float64 zeroDraws = (0, zeroDraws)"
  by (simp add: Float64_def zeroDraws_def)

lemmas toy_defs = toyNetwork_def toyNodeA_def toyNodeB_def

lemmas sampler_defs = sampleAccordingToRestrictions_def getProbabilitiesGivenKnownValues_def
  floatEntries_def validValuesOf_def sampleRandomValueFromPossibilities_def Float64_zeroDraws
  index_prob_def index_str_def possibilitiesOf_def sample_def hasKey_def

lemma toy_restricted:
  "generateConsistentSampleWhenPossible toyNetwork [(''A'', [''a1'']), (''B'', [''b1'', ''b2''])]
     zeroDraws = Some (Found [(''A'', ''a1''), (''B'', ''b1'')] zeroDraws)"
  by (simp add: generateConsistentSampleWhenPossible_def
      recursivelyGenerateConsistentSampleWhenPossible.simps toy_defs sampler_defs)

lemma toy_restricted_fail:
  "generateConsistentSampleWhenPossible toyNetwork [(''A'', [''a1'']), (''B'', [''invalid_value''])]
     zeroDraws = Some (NotFound [] zeroDraws)"
  by (simp add: generateConsistentSampleWhenPossible_def
      recursivelyGenerateConsistentSampleWhenPossible.simps toy_defs sampler_defs)

lemma toy_sample:
  "generateSample toyNetwork [] zeroDraws = (Inr [(''A'', ''a1''), (''B'', ''b1'')], zeroDraws)"
  by (simp add: generateSample_def toy_defs sampler_defs)

lemma toy_leaves_nonempty:
  "\<forall>n \<in> set (NodesInSamplingOrder toyNetwork). \<forall>parentValues. \<exists>probabilities.
     getProbabilitiesGivenKnownValues n parentValues = Inr probabilities \<and> probabilities \<noteq> []"
  by (simp add: toy_defs getProbabilitiesGivenKnownValues_def floatEntries_def Let_def
      split: option.splits)

lemma toy_leafValuesPossible: "leafValuesPossible toyNetwork"
  by (auto simp: leafValuesPossible_def toy_defs getProbabilitiesGivenKnownValues_def
      floatEntries_def Let_def split: option.splits if_splits)

section \<open>Claims about the network samplers\<close>

text \<open>
  Claim C7. The backtracking restricted sampler terminates on every input: the search
  returns a result from every depth, list of banned values, partial assignment and
  state of the random source. The reason is the one the specification gives: a value
  drawn by \<open>sampleAccordingToRestrictions\<close> is a candidate that is not banned yet, so
  banning it makes the number of banned candidates grow by exactly one, and that number
  never exceeds the number of candidates.
\<close>

theorem backtracking_sampler_terminates:
  "(\<exists>res. generateConsistentSampleWhenPossible bn valuePossibilities r = Some res) \<and>
   (\<exists>res. recursivelyGenerateConsistentSampleWhenPossible bn valuePossibilities depth bannedValues
            sampleSoFar r = Some res) \<and>
   (sampleAccordingToRestrictions n sampleSoFar possibilities bannedValues r
      = (Inr (Some v), r') \<longrightarrow>
    v \<in> set possibilities \<and> v \<notin> set bannedValues \<and>
    card (set possibilities \<inter> set (bannedValues @ [v]))
      = Suc (card (set possibilities \<inter> set bannedValues)) \<and>
    card (set possibilities \<inter> set (bannedValues @ [v])) \<le> card (set possibilities))"
proof (intro conjI impI)
  show "\<exists>res. generateConsistentSampleWhenPossible bn valuePossibilities r = Some res"
    unfolding generateConsistentSampleWhenPossible_def by (rule recursively_returns)
  show "\<exists>res. recursivelyGenerateConsistentSampleWhenPossible bn valuePossibilities depth
      bannedValues sampleSoFar r = Some res"
    by (rule recursively_returns)
next
  assume "sampleAccordingToRestrictions n sampleSoFar possibilities bannedValues r
      = (Inr (Some v), r')"
  then have v: "v \<in> set possibilities" "v \<notin> set bannedValues"
    using sampleAccordingToRestrictions_Some by blast+
  show "v \<in> set possibilities" "v \<notin> set bannedValues" by (rule v)+
  have "set possibilities \<inter> set (bannedValues @ [v])
      = insert v (set possibilities \<inter> set bannedValues)"
    using v by auto
  moreover have "v \<notin> set possibilities \<inter> set bannedValues" using v by simp
  ultimately show "card (set possibilities \<inter> set (bannedValues @ [v]))
      = Suc (card (set possibilities \<inter> set bannedValues))"
    by simp
  show "card (set possibilities \<inter> set (bannedValues @ [v])) \<le> card (set possibilities)"
    by (rule card_mono) auto
qed

theorem backtracking_sampler_terminates_witness:
  "sampleAccordingToRestrictions toyNodeA [] [''a1'', ''a2''] [] zeroDraws
     = (Inr (Some ''a1''), zeroDraws) \<and>
   card (set [''a1'', ''a2''] \<inter> set ([] @ [''a1''])) = Suc (card (set [''a1'', ''a2''] \<inter> set [])) \<and>
   (\<exists>res. generateConsistentSampleWhenPossible toyNetwork [(''B'', [''invalid_value''])] zeroDraws
      = Some res)"
  using backtracking_sampler_terminates[of toyNetwork "[(''B'', [''invalid_value''])]" zeroDraws
      0 "[]" "[]" toyNodeA "[''a1'', ''a2'']" "''a1''" zeroDraws]
  by (simp add: toy_defs sampler_defs)

text \<open>
  Claim C4, as amended. Unconditional sampling returns an assignment binding every node
  whenever the walk through every node's table ends, under every binding, in a leaf
  distribution with at least one entry; then \<open>sample\<close> returns a value for every node
  and binding. On a non-empty value list the weighted sampler returns an element of the
  list, the first one when no cumulative weight exceeds the draw, whatever the weights
  are (missing weights count as zero).
\<close>

theorem unconditional_sampling_returns:
  assumes "\<forall>n \<in> set (NodesInSamplingOrder bn). \<forall>parentValues. \<exists>probabilities.
      getProbabilitiesGivenKnownValues n parentValues = Inr probabilities \<and> probabilities \<noteq> []"
  shows "(\<exists>smp r'. generateSample bn inputValues r = (Inr smp, r') \<and>
            (\<forall>n \<in> set (NodesInSamplingOrder bn). hasKey smp (Name n))) \<and>
         (\<forall>n \<in> set (NodesInSamplingOrder bn). \<forall>parentValues. \<exists>v r'.
            sample n parentValues r = (Inr v, r')) \<and>
         (possibleValues \<noteq> [] \<longrightarrow>
            (\<exists>v. sampleRandomValueFromPossibilities possibleValues probabilities r
                   = (Inr v, snd (Float64 r)) \<and>
                 v \<in> set possibleValues \<and>
                 (scanCumulative (fst (Float64 r)) probabilities 0 possibleValues = None
                    \<longrightarrow> v = hd possibleValues)))"
proof (intro conjI)
  show "\<exists>smp r'. generateSample bn inputValues r = (Inr smp, r') \<and>
      (\<forall>n \<in> set (NodesInSamplingOrder bn). hasKey smp (Name n))"
    unfolding generateSample_def by (rule generateSampleLoop_returns[OF assms])
  show "\<forall>n \<in> set (NodesInSamplingOrder bn). \<forall>parentValues. \<exists>v r'.
      sample n parentValues r = (Inr v, r')"
    using assms sample_returns by blast
  show "possibleValues \<noteq> [] \<longrightarrow>
      (\<exists>v. sampleRandomValueFromPossibilities possibleValues probabilities r
             = (Inr v, snd (Float64 r)) \<and>
           v \<in> set possibleValues \<and>
           (scanCumulative (fst (Float64 r)) probabilities 0 possibleValues = None
              \<longrightarrow> v = hd possibleValues))"
    using sampleRandomValue_nonempty by blast
qed

theorem unconditional_sampling_returns_witness:
  "(\<exists>smp r'. generateSample toyNetwork [] zeroDraws = (Inr smp, r') \<and>
      hasKey smp ''A'' \<and> hasKey smp ''B'') \<and>
   (\<exists>v. sampleRandomValueFromPossibilities [''x'', ''y''] [] zeroDraws = (Inr v, zeroDraws) \<and>
      v = hd [''x'', ''y''])"
  using unconditional_sampling_returns[OF toy_leaves_nonempty, of "[]" zeroDraws "[''x'', ''y'']" "[]"]
  by (simp add: toy_defs Float64_zeroDraws index_prob_def)

text \<open>
  The claim as stated fails on an empty leaf distribution: the value list is empty, the
  fallback \<open>possibleValues[0]\<close> is out of range, and the sampler, \<open>sample\<close> and
  \<open>generateSample\<close> abort.
\<close>

theorem empty_leaf_aborts_sampling:
  "fst (generateSample \<lparr>NodesInSamplingOrder = [emptyLeafNode]\<rparr> [] zeroDraws)
     = Inl IndexOutOfRange \<and>
   fst (sample emptyLeafNode [] zeroDraws) = Inl IndexOutOfRange \<and>
   fst (sampleRandomValueFromPossibilities [] [] zeroDraws) = Inl IndexOutOfRange"
  by (simp add: generateSample_def emptyLeafNode_def sampler_defs)

text \<open>
  Claim C3, as amended. On a network with distinct node names, an assignment returned
  by restricted sampling binds every node to a member of its restriction list when one
  is supplied and to a member of its \<open>PossibleValues\<close> otherwise; an assignment returned
  by unconditional sampling keeps every seeded binding as it is and binds every other
  node. Every value drawn is a key of a leaf distribution of its node, so it is one of
  the node's \<open>PossibleValues\<close> when the tables mention only possible values.
\<close>

theorem sampled_values_are_allowed:
  assumes "distinct (map Name (NodesInSamplingOrder bn))"
  shows "(generateConsistentSampleWhenPossible bn valuePossibilities r = Some (Found smp r') \<longrightarrow>
           (\<forall>n \<in> set (NodesInSamplingOrder bn). \<exists>v.
              map_of smp (Name n) = Some v \<and>
              v \<in> set (case map_of valuePossibilities (Name n) of
                          Some possibilities \<Rightarrow> possibilities
                        | None \<Rightarrow> PossibleValues n) \<and>
              (leafValuesPossible bn \<longrightarrow> v \<in> set (PossibleValues n)))) \<and>
         (generateSample bn inputValues r = (Inr smp, r') \<longrightarrow>
           (\<forall>n \<in> set (NodesInSamplingOrder bn). \<exists>v.
              map_of smp (Name n) = Some v \<and>
              (map_of inputValues (Name n) = Some v \<or>
               map_of inputValues (Name n) = None \<and>
               (leafValuesPossible bn \<longrightarrow> v \<in> set (PossibleValues n)))))"
proof (intro conjI impI ballI)
  fix n
  assume run: "generateConsistentSampleWhenPossible bn valuePossibilities r = Some (Found smp r')"
    and n: "n \<in> set (NodesInSamplingOrder bn)"
  define Q where "Q = (\<lambda>n v. v \<in> set (possibilitiesOf valuePossibilities n) \<and>
      (leafValuesPossible bn \<longrightarrow> v \<in> set (PossibleValues n)))"
  have "\<forall>smp0 r0 res.
      recursivelyGenerateConsistentSampleWhenPossible bn valuePossibilities 0 [] smp0 r0 = Some res
      \<longrightarrow> searchInvariant Q (drop 0 (NodesInSamplingOrder bn)) smp0 res"
  proof (rule recursively_invariant[OF assms])
    fix m smp0 poss banned r0 v r1
    assume m: "m \<in> set (NodesInSamplingOrder bn)"
      and "sampleAccordingToRestrictions m smp0 (possibilitiesOf valuePossibilities m) banned r0
            = (Inr (Some v), r1)"
    from sampleAccordingToRestrictions_Some[OF this(2)] obtain probs where
      v: "v \<in> set (possibilitiesOf valuePossibilities m)"
      and p: "getProbabilitiesGivenKnownValues m smp0 = Inr probs" "hasKey probs v" by blast
    from p m have "leafValuesPossible bn \<longrightarrow> v \<in> set (PossibleValues m)"
      using leafValuesPossibleD by blast
    with v show "Q m v" by (simp add: Q_def)
  qed
  with run have "searchInvariant Q (NodesInSamplingOrder bn) [] (Found smp r')"
    unfolding generateConsistentSampleWhenPossible_def by fastforce
  then have "boundWithin Q (NodesInSamplingOrder bn) smp"
    by (simp add: searchInvariant_def)
  with n show "\<exists>v. map_of smp (Name n) = Some v \<and>
      v \<in> set (case map_of valuePossibilities (Name n) of
                  Some possibilities \<Rightarrow> possibilities
                | None \<Rightarrow> PossibleValues n) \<and>
      (leafValuesPossible bn \<longrightarrow> v \<in> set (PossibleValues n))"
    by (simp add: boundWithin_def Q_def possibilitiesOf_def)
next
  fix n
  assume run: "generateSample bn inputValues r = (Inr smp, r')"
    and n: "n \<in> set (NodesInSamplingOrder bn)"
  then have loop: "generateSampleLoop (NodesInSamplingOrder bn) inputValues r = (Inr smp, r')"
    by (simp add: generateSample_def)
  show "\<exists>v. map_of smp (Name n) = Some v \<and>
      (map_of inputValues (Name n) = Some v \<or>
       map_of inputValues (Name n) = None \<and>
       (leafValuesPossible bn \<longrightarrow> v \<in> set (PossibleValues n)))"
  proof (cases "map_of inputValues (Name n)")
    case (Some v)
    from generateSampleLoop_keeps[OF loop Some] Some show ?thesis by simp
  next
    case None
    define Q where "Q = (\<lambda>(n::node) v. leafValuesPossible bn \<longrightarrow> v \<in> set (PossibleValues n))"
    have "\<exists>v. map_of smp (Name n) = Some v \<and> Q n v"
    proof (rule generateSampleLoop_binds[OF _ subset_refl assms loop n None])
      fix m pv r0 v r1
      assume m: "m \<in> set (NodesInSamplingOrder bn)" and "sample m pv r0 = (Inr v, r1)"
      from sample_value[OF this(2)] obtain probs where
        "getProbabilitiesGivenKnownValues m pv = Inr probs" "hasKey probs v" by blast
      with m show "Q m v" unfolding Q_def using leafValuesPossibleD by blast
    qed
    with None show ?thesis by (simp add: Q_def)
  qed
qed

theorem sampled_values_are_allowed_witness:
  "generateConsistentSampleWhenPossible toyNetwork [(''A'', [''a1'']), (''B'', [''b1'', ''b2''])]
     zeroDraws = Some (Found [(''A'', ''a1''), (''B'', ''b1'')] zeroDraws) \<and>
   generateSample toyNetwork [] zeroDraws = (Inr [(''A'', ''a1''), (''B'', ''b1'')], zeroDraws) \<and>
   leafValuesPossible toyNetwork \<and>
   ''a1'' \<in> set [''a1''] \<and> ''b1'' \<in> set (PossibleValues toyNodeB)"
proof -
  have d: "distinct (map Name (NodesInSamplingOrder toyNetwork))"
    by (simp add: toy_defs)
  show ?thesis
    using sampled_values_are_allowed[OF d, of "[(''A'', [''a1'']), (''B'', [''b1'', ''b2''])]"
        zeroDraws "[(''A'', ''a1''), (''B'', ''b1'')]" zeroDraws "[]"]
      toy_restricted toy_sample toy_leafValuesPossible
    by (simp add: toy_defs)
qed

text \<open>
  The claim as stated fails for a seeded binding, which is returned as it is even when
  the value is not a possible value of the node, and for a restriction key that names no
  node, which the returned assignment does not bind.
\<close>

theorem seeded_value_outside_possible_values:
  "generateSample toyNetwork [(''A'', ''zzz'')] zeroDraws
     = (Inr [(''A'', ''zzz''), (''B'', ''b1'')], zeroDraws) \<and>
   ''zzz'' \<notin> set (PossibleValues toyNodeA) \<and>
   generateConsistentSampleWhenPossible toyNetwork [(''C'', [''c1''])] zeroDraws
     = Some (Found [(''A'', ''a1''), (''B'', ''b1'')] zeroDraws) \<and>
   map_of [(''A'', ''a1''), (''B'', ''b1'')] ''C'' = None"
  by (simp add: generateSample_def generateConsistentSampleWhenPossible_def
      recursivelyGenerateConsistentSampleWhenPossible.simps toy_defs sampler_defs)

section \<open>Lemmas about the header generator\<close>

lemma filterValidValues_eq:
  "filterValidValues vs supported =
     (filter (\<lambda>v. v \<in> set supported) vs,
      if filter (\<lambda>v. v \<notin> set supported) vs \<noteq> []
      then Some (ValuesNotSupported (filter (\<lambda>v. v \<notin> set supported) vs)) else None)"
  by (auto simp: filterValidValues_def validateAgainstSupported_def Let_def)

lemma validateAndMerge_eq:
  "validateAndMerge userValues supported current errs =
     (if filter (\<lambda>v. v \<in> set supported) userValues \<noteq> []
      then filter (\<lambda>v. v \<in> set supported) userValues else current,
      if filter (\<lambda>v. v \<notin> set supported) userValues \<noteq> []
      then errs @ [ValuesNotSupported (filter (\<lambda>v. v \<notin> set supported) userValues)] else errs)"
  by (auto simp: validateAndMerge_def filterValidValues_eq)

lemma validateAndMerge_eq2:
  "validateAndMerge userValues supported current errs =
     (if filter (\<lambda>v. v \<in> set supported) userValues \<noteq> []
      then filter (\<lambda>v. v \<in> set supported) userValues else current,
      errs @ unsupportedError supported userValues)"
  by (simp add: validateAndMerge_eq unsupportedError_def)

lemma mergeOptions_eq:
  "mergeOptions g userOptions =
     (\<lparr>BrowserSpecs = BrowserSpecs userOptions,
       Browsers = (if filter (\<lambda>v. v \<in> set SupportedBrowsers) (Browsers userOptions) \<noteq> []
                   then filter (\<lambda>v. v \<in> set SupportedBrowsers) (Browsers userOptions)
                   else Browsers (options g)),
       OS = (if filter (\<lambda>v. v \<in> set SupportedOS) (OS userOptions) \<noteq> []
             then filter (\<lambda>v. v \<in> set SupportedOS) (OS userOptions)
             else OS (options g)),
       Devices = (if filter (\<lambda>v. v \<in> set SupportedDevices) (Devices userOptions) \<noteq> []
                  then filter (\<lambda>v. v \<in> set SupportedDevices) (Devices userOptions)
                  else Devices (options g)),
       Locales = (if Locales userOptions \<noteq> [] then take 10 (Locales userOptions)
                  else Locales (options g)),
       HTTPVersion = (if HTTPVersion userOptions \<in> set SupportedHTTP then HTTPVersion userOptions
                      else HTTPVersion (options g)),
       Strict = Strict userOptions\<rparr>,
      let errs = unsupportedError SupportedBrowsers (Browsers userOptions) @
                 unsupportedError SupportedOS (OS userOptions) @
                 unsupportedError SupportedDevices (Devices userOptions) @
                 (if HTTPVersion userOptions \<noteq> [] \<and> HTTPVersion userOptions \<notin> set SupportedHTTP
                  then [NotSupported (HTTPVersion userOptions)] else [])
      in if errs \<noteq> [] then Some (ValidationErrors errs) else None)"
  by (simp add: mergeOptions_def validateAndMerge_eq2 Let_def validateAgainstSupported_def
      SupportedHTTP_def)

lemma unsupportedError_empty:
  "unsupportedError supported vs = [] \<longleftrightarrow> set vs \<subseteq> set supported"
  by (auto simp: unsupportedError_def filter_empty_conv)

lemma unsupportedError_all:
  "vs \<noteq> [] \<Longrightarrow> set vs \<inter> set supported = {} \<Longrightarrow>
   unsupportedError supported vs = [ValuesNotSupported vs] \<and>
   filter (\<lambda>v. v \<in> set supported) vs = []"
proof -
  assume "vs \<noteq> []" and d: "set vs \<inter> set supported = {}"
  from d have "filter (\<lambda>v. v \<notin> set supported) vs = vs"
    by (auto simp: filter_id_conv)
  moreover from d have "filter (\<lambda>v. v \<in> set supported) vs = []"
    by (auto simp: filter_empty_conv)
  ultimately show ?thesis using \<open>vs \<noteq> []\<close> by (simp add: unsupportedError_def)
qed

lemmas gen_defs = toyGenerator_def toyUniqueBrowsers_def toyHeaderNetwork_def httpVersionNode_def
  toyInputNetwork_def rootNode_def defaultHeaderOptions_def emptyConstraints_def
  SupportedBrowsers_def SupportedOS_def SupportedDevices_def SupportedHTTP_def

lemma toy_merge:
  "mergeOptions toyGenerator emptyConstraints = (defaultHeaderOptions, None)"
  by (simp add: mergeOptions_eq gen_defs unsupportedError_def)

lemma toy_prepare:
  "prepareConstraints toyGenerator defaultHeaderOptions =
     Inr [(''*BROWSER_HTTP'', [''chrome/131.0.0.0|2'', ''safari/17.0|2'']),
          (''*OPERATING_SYSTEM'', [''windows'', ''macos'', ''linux'', ''android'', ''ios'']),
          (''*DEVICE'', [''desktop'', ''mobile''])]"
  by (simp add: prepareConstraints_def getPossibleAttributeValues_def getBrowserHTTPOptions_def
      matchName_def filterBrowserHTTP_def filterOtherValues_def index_list_def gen_defs)

lemmas header_defs = headersFromInputSample_def generateSample_def generateHeadersFromSample_def
  addAcceptLanguage_def addSecFetch_def generateAcceptLanguageHeader_def formatTenths_def
  digitChar_def prepareHttpBrowserObject_def shouldAddSecFetch_def IsHTTP2_def atoi_def
  digitValue_def isBlank_def HasPrefix_def missingValueToken_def http1SecFetchAttributes_def
  http2SecFetchAttributes_def pascalizeHeaders_def pascalizedNames_def pascalizeKey_def
  ToLower_def toLowerChar_def toUpperChar_def isLetter_def upperLetters_def lowerLetters_def

lemma toy_input_sample:
  "generateConsistentSampleWhenPossible toyInputNetwork
     [(''*BROWSER_HTTP'', [''chrome/131.0.0.0|2'', ''safari/17.0|2'']),
      (''*OPERATING_SYSTEM'', [''windows'', ''macos'', ''linux'', ''android'', ''ios'']),
      (''*DEVICE'', [''desktop'', ''mobile''])] zeroDraws
   = Some (Found [(''*BROWSER_HTTP'', ''chrome/131.0.0.0|2''), (''*OPERATING_SYSTEM'', ''windows''),
                  (''*DEVICE'', ''desktop'')] zeroDraws)"
  by (simp add: generateConsistentSampleWhenPossible_def
      recursivelyGenerateConsistentSampleWhenPossible.simps gen_defs sampler_defs)

lemma toy_header_sample:
  "generateSample toyHeaderNetwork
     [(''*BROWSER_HTTP'', ''chrome/131.0.0.0|2''), (''*OPERATING_SYSTEM'', ''windows''),
      (''*DEVICE'', ''desktop'')] zeroDraws
   = (Inr [(''*BROWSER_HTTP'', ''chrome/131.0.0.0|2''), (''*OPERATING_SYSTEM'', ''windows''),
           (''*DEVICE'', ''desktop''), (''*HTTP_VERSION'', ''2''), (''user-agent'', ''Mozilla/5.0''),
           (''dnt'', ''*MISSING_VALUE*'')], zeroDraws)"
  by (simp add: generateSample_def gen_defs sampler_defs)

lemma toy_header_steps:
  "pascalizeHeaders
     (addSecFetch
        [(''*BROWSER_HTTP'', ''chrome/131.0.0.0|2''), (''*OPERATING_SYSTEM'', ''windows''),
         (''*DEVICE'', ''desktop''), (''*HTTP_VERSION'', ''2''), (''user-agent'', ''Mozilla/5.0''),
         (''dnt'', ''*MISSING_VALUE*'')]
        (addAcceptLanguage defaultHeaderOptions
           [(''*BROWSER_HTTP'', ''chrome/131.0.0.0|2''), (''*OPERATING_SYSTEM'', ''windows''),
            (''*DEVICE'', ''desktop''), (''*HTTP_VERSION'', ''2''), (''user-agent'', ''Mozilla/5.0''),
            (''dnt'', ''*MISSING_VALUE*'')]
           (generateHeadersFromSample
              [(''*BROWSER_HTTP'', ''chrome/131.0.0.0|2''), (''*OPERATING_SYSTEM'', ''windows''),
               (''*DEVICE'', ''desktop''), (''*HTTP_VERSION'', ''2''),
               (''user-agent'', ''Mozilla/5.0''), (''dnt'', ''*MISSING_VALUE*'')])))
   = [(''User-Agent'', ''Mozilla/5.0''), (''Accept-Language'', ''en-US;q=1.0''),
      (''Sec-Fetch-Mode'', ''same-site''), (''Sec-Fetch-Dest'', ''navigate''),
      (''Sec-Fetch-Site'', ''?1''), (''Sec-Fetch-User'', ''document'')]"
  by code_simp

lemma toy_headers_from_sample:
  "headersFromInputSample toyGenerator defaultHeaderOptions
     [(''*BROWSER_HTTP'', ''chrome/131.0.0.0|2''), (''*OPERATING_SYSTEM'', ''windows''),
      (''*DEVICE'', ''desktop'')] zeroDraws
   = Returned (Some [(''User-Agent'', ''Mozilla/5.0''), (''Accept-Language'', ''en-US;q=1.0''),
        (''Sec-Fetch-Mode'', ''same-site''), (''Sec-Fetch-Dest'', ''navigate''),
        (''Sec-Fetch-Site'', ''?1''), (''Sec-Fetch-User'', ''document'')]) zeroDraws"
  by (simp add: headersFromInputSample_def toy_header_sample toy_header_steps Let_def
      toyGenerator_def) (simp add: defaultHeaderOptions_def)

lemma toy_fields:
  "inputGeneratorNetwork toyGenerator = toyInputNetwork"
  "headerGeneratorNetwork toyGenerator = toyHeaderNetwork"
  "options toyGenerator = defaultHeaderOptions"
  by (simp_all add: toyGenerator_def)

lemma toy_generate:
  "GenerateHeaders toyGenerator emptyConstraints zeroDraws
   = Some (Returned (Some [(''User-Agent'', ''Mozilla/5.0''), (''Accept-Language'', ''en-US;q=1.0''),
        (''Sec-Fetch-Mode'', ''same-site''), (''Sec-Fetch-Dest'', ''navigate''),
        (''Sec-Fetch-Site'', ''?1''), (''Sec-Fetch-User'', ''document'')]) zeroDraws)"
  by (subst GenerateHeaders.simps)
     (simp add: toy_merge toy_prepare toy_input_sample toy_headers_from_sample toy_fields)

lemma Split_nonempty: "Split s c \<noteq> []"
  by (induction s) (auto split: list.splits)

lemma length_Split: "length (Split s c) = Suc (count_list s c)"
  by (induction s) (auto split: list.splits simp: Split_nonempty)

lemma hd_Split: "hd (Split s c) = takeWhile (\<lambda>x. x \<noteq> c) s"
  by (induction s) (auto split: list.splits simp: Split_nonempty)

lemma case_two_parts:
  "(case xs of [a, b] \<Rightarrow> f a b | _ \<Rightarrow> d) =
     (if length xs = 2 then f (hd xs) (xs ! 1) else d)"
  by (auto split: list.splits)

lemma prepareHttpBrowserObject_None:
  "prepareHttpBrowserObject s = None \<longleftrightarrow>
     s \<noteq> missingValueToken \<and>
     \<not> (count_list s (CHR ''|'') = 1 \<and>
        count_list (takeWhile (\<lambda>c. c \<noteq> CHR ''|'') s) (CHR ''/'') = 1)"
  by (simp add: prepareHttpBrowserObject_def case_two_parts length_Split hd_Split)

lemma acceptLanguageParts_zip:
  "acceptLanguageParts i ls =
     map (\<lambda>(j, l). l @ '';q='' @ formatTenths (10 - j)) (zip [i..<10] ls)"
proof (induction ls arbitrary: i)
  case Nil
  then show ?case by simp
next
  case (Cons l rest)
  show ?case
  proof (cases "i \<ge> 10")
    case True
    then show ?thesis by simp
  next
    case False
    then have "[i..<10] = i # [Suc i..<10]" by (simp add: upt_conv_Cons)
    with False Cons show ?thesis by simp
  qed
qed

lemma fold_update_map_of:
  "map_of (fold (\<lambda>(k, v) h. AList.update k v h) kvs h) k =
     (case map_of (rev kvs) k of Some v \<Rightarrow> Some v | None \<Rightarrow> map_of h k)"
  by (induction kvs arbitrary: h) (auto simp: update_conv' split: option.splits)

lemma addSecFetch_eq:
  "addSecFetch smp headers =
     (case prepareHttpBrowserObject (index_str smp ''*BROWSER_HTTP'') of
        None \<Rightarrow> headers
      | Some b \<Rightarrow>
          if shouldAddSecFetch (Some b)
          then fold (\<lambda>(k, v) h. AList.update k v h)
                 (if IsHTTP2 b then http2SecFetchAttributes else http1SecFetchAttributes) headers
          else headers)"
  by (simp add: addSecFetch_def Let_def split: option.splits)

lemma addSecFetch_other:
  assumes "k \<notin> fst ` set http1SecFetchAttributes" "k \<notin> fst ` set http2SecFetchAttributes"
  shows "map_of (addSecFetch smp headers) k = map_of headers k"
proof -
  have "map_of (rev http1SecFetchAttributes) k = None" "map_of (rev http2SecFetchAttributes) k = None"
    using assms by (simp_all add: map_of_eq_None_iff)
  then show ?thesis
    by (simp add: addSecFetch_eq fold_update_map_of split: option.splits)
qed

lemma toy_malformed_sample:
  "generateSample toyHeaderNetwork [(''*BROWSER_HTTP'', ''chrome'')] zeroDraws
   = (Inr [(''*BROWSER_HTTP'', ''chrome''), (''*HTTP_VERSION'', ''2''),
           (''user-agent'', ''Mozilla/5.0''), (''dnt'', ''*MISSING_VALUE*'')], zeroDraws)"
  by (simp add: generateSample_def gen_defs sampler_defs)

lemma toy_malformed_steps:
  "prepareHttpBrowserObject ''chrome'' = None"
  "index_str [(''*BROWSER_HTTP'', ''chrome''), (''*HTTP_VERSION'', ''2''),
              (''user-agent'', ''Mozilla/5.0''), (''dnt'', ''*MISSING_VALUE*'')] ''*BROWSER_HTTP''
   = ''chrome''"
  "pascalizeHeaders
     (addAcceptLanguage defaultHeaderOptions
        [(''*BROWSER_HTTP'', ''chrome''), (''*HTTP_VERSION'', ''2''),
         (''user-agent'', ''Mozilla/5.0''), (''dnt'', ''*MISSING_VALUE*'')]
        (generateHeadersFromSample
           [(''*BROWSER_HTTP'', ''chrome''), (''*HTTP_VERSION'', ''2''),
            (''user-agent'', ''Mozilla/5.0''), (''dnt'', ''*MISSING_VALUE*'')]))
   = [(''User-Agent'', ''Mozilla/5.0''), (''Accept-Language'', ''en-US;q=1.0'')]"
  by code_simp+

lemma toy_two_slashes:
  "prepareHttpBrowserObject ''chrome/100|2/3'' =
     Some \<lparr>browser_Name = Some ''chrome'', Version = [100],
           CompleteString = ''chrome/100|2/3'', browser_HTTPVersion = ''2/3''\<rparr>"
  "count_list ''chrome/100|2/3'' (CHR ''/'') = 2"
  "addSecFetch [(''*BROWSER_HTTP'', ''chrome/100|2/3'')] [] = http1SecFetchAttributes"
  by code_simp+

lemma toy_netscape:
  "mergeOptions toyGenerator (emptyConstraints\<lparr>Browsers := [''netscape'']\<rparr>) =
     (defaultHeaderOptions, Some (ValidationErrors [ValuesNotSupported [''netscape'']]))"
  by (simp add: mergeOptions_eq gen_defs unsupportedError_def)

lemma bind_Some_map: "Option.bind x (\<lambda>res. Some (f res)) = map_option f x"
  by (cases x) simp_all

lemma pascalizeRetried_Failed:
  "pascalizeRetried res = Failed err r \<longleftrightarrow> res = Failed err r"
  by (cases res) (simp_all add: pascalizeRetried_def)

lemma GenerateHeaders_not_found:
  assumes "mergeOptions g opts = (constraints, None)"
    and "prepareConstraints g constraints = Inr inputConstraints"
    and "generateConsistentSampleWhenPossible (inputGeneratorNetwork g) inputConstraints r
         = Some (NotFound smp r1)"
  shows "GenerateHeaders g opts r =
     (if HTTPVersion constraints = ''1''
      then map_option pascalizeRetried
             (GenerateHeaders g (constraints\<lparr>HTTPVersion := ''2''\<rparr>) r1)
      else if Strict constraints then Some (Failed NoHeadersForInput r1)
      else map_option pascalizeRetried
             (GenerateHeaders g (constraints\<lparr>Locales := [], Devices := []\<rparr>) r1))"
  by (subst GenerateHeaders.simps) (simp add: assms bind_Some_map)

lemma GenerateHeaders_found:
  assumes "mergeOptions g opts = (constraints, None)"
    and "prepareConstraints g constraints = Inr inputConstraints"
    and "generateConsistentSampleWhenPossible (inputGeneratorNetwork g) inputConstraints r
         = Some (Found inputSample r1)"
  shows "GenerateHeaders g opts r = Some (headersFromInputSample g constraints inputSample r1)"
  by (subst GenerateHeaders.simps) (simp add: assms)

lemma GenerateHeaders_invalid:
  assumes "mergeOptions g opts = (constraints, Some err)"
  shows "GenerateHeaders g opts r = Some (Failed err r)"
  by (subst GenerateHeaders.simps) (simp add: assms)

lemma toy_linux_merge:
  "mergeOptions toyGenerator (emptyConstraints\<lparr>OS := [''linux''], HTTPVersion := ''1'', Strict := True\<rparr>)
     = (defaultHeaderOptions\<lparr>OS := [''linux''], HTTPVersion := ''1'', Strict := True\<rparr>, None)"
  "mergeOptions toyGenerator (defaultHeaderOptions\<lparr>OS := [''linux''], HTTPVersion := ''2'', Strict := True\<rparr>)
     = (defaultHeaderOptions\<lparr>OS := [''linux''], HTTPVersion := ''2'', Strict := True\<rparr>, None)"
  by (simp_all add: mergeOptions_eq gen_defs unsupportedError_def)

lemma toy_linux_prepare:
  "prepareConstraints toyGenerator
     (defaultHeaderOptions\<lparr>OS := [''linux''], HTTPVersion := ''1'', Strict := True\<rparr>) =
     Inr [(''*BROWSER_HTTP'', [''chrome/131.0.0.0|1'']), (''*OPERATING_SYSTEM'', [''linux'']),
          (''*DEVICE'', [''desktop'', ''mobile''])]"
  "prepareConstraints toyGenerator
     (defaultHeaderOptions\<lparr>OS := [''linux''], HTTPVersion := ''2'', Strict := True\<rparr>) =
     Inr [(''*BROWSER_HTTP'', [''chrome/131.0.0.0|2'', ''safari/17.0|2'']),
          (''*OPERATING_SYSTEM'', [''linux'']), (''*DEVICE'', [''desktop'', ''mobile''])]"
  by (simp_all add: prepareConstraints_def getPossibleAttributeValues_def getBrowserHTTPOptions_def
      matchName_def filterBrowserHTTP_def filterOtherValues_def index_list_def gen_defs)

lemma toy_linux_sample:
  "generateConsistentSampleWhenPossible toyInputNetwork
     [(''*BROWSER_HTTP'', [''chrome/131.0.0.0|1'']), (''*OPERATING_SYSTEM'', [''linux'']),
      (''*DEVICE'', [''desktop'', ''mobile''])] zeroDraws = Some (NotFound [] zeroDraws)"
  "generateConsistentSampleWhenPossible toyInputNetwork
     [(''*BROWSER_HTTP'', [''chrome/131.0.0.0|2'', ''safari/17.0|2'']),
      (''*OPERATING_SYSTEM'', [''linux'']), (''*DEVICE'', [''desktop'', ''mobile''])] zeroDraws
   = Some (NotFound [] zeroDraws)"
  by (simp_all add: generateConsistentSampleWhenPossible_def
      recursivelyGenerateConsistentSampleWhenPossible.simps gen_defs sampler_defs)

lemma toy_linux_retry:
  "GenerateHeaders toyGenerator
     (defaultHeaderOptions\<lparr>OS := [''linux''], HTTPVersion := ''2'', Strict := True\<rparr>) zeroDraws
   = Some (Failed NoHeadersForInput zeroDraws)"
  by (subst GenerateHeaders_not_found[OF toy_linux_merge(2) toy_linux_prepare(2)])
     (simp_all add: toy_fields toy_linux_sample)

lemma toy_http1_merge:
  "mergeOptions toyGenerator (emptyConstraints\<lparr>HTTPVersion := ''1''\<rparr>)
     = (defaultHeaderOptions\<lparr>HTTPVersion := ''1''\<rparr>, None)"
  by (simp add: mergeOptions_eq gen_defs unsupportedError_def)

lemma toy_http1_prepare:
  "prepareConstraints toyGenerator (defaultHeaderOptions\<lparr>HTTPVersion := ''1''\<rparr>) =
     Inr [(''*BROWSER_HTTP'', [''chrome/131.0.0.0|1'']),
          (''*OPERATING_SYSTEM'', [''windows'', ''macos'', ''linux'', ''android'', ''ios'']),
          (''*DEVICE'', [''desktop'', ''mobile''])]"
  by (simp add: prepareConstraints_def getPossibleAttributeValues_def getBrowserHTTPOptions_def
      matchName_def filterBrowserHTTP_def filterOtherValues_def index_list_def gen_defs)

lemma toy_http1_input_sample:
  "generateConsistentSampleWhenPossible toyInputNetwork
     [(''*BROWSER_HTTP'', [''chrome/131.0.0.0|1'']),
      (''*OPERATING_SYSTEM'', [''windows'', ''macos'', ''linux'', ''android'', ''ios'']),
      (''*DEVICE'', [''desktop'', ''mobile''])] zeroDraws
   = Some (Found [(''*BROWSER_HTTP'', ''chrome/131.0.0.0|1''), (''*OPERATING_SYSTEM'', ''windows''),
                  (''*DEVICE'', ''desktop'')] zeroDraws)"
  by (simp add: generateConsistentSampleWhenPossible_def
      recursivelyGenerateConsistentSampleWhenPossible.simps gen_defs sampler_defs)

lemma toy_http1_header_sample:
  "generateSample toyHeaderNetwork
     [(''*BROWSER_HTTP'', ''chrome/131.0.0.0|1''), (''*OPERATING_SYSTEM'', ''windows''),
      (''*DEVICE'', ''desktop'')] zeroDraws
   = (Inr [(''*BROWSER_HTTP'', ''chrome/131.0.0.0|1''), (''*OPERATING_SYSTEM'', ''windows''),
           (''*DEVICE'', ''desktop''), (''*HTTP_VERSION'', ''1''), (''user-agent'', ''Mozilla/5.0''),
           (''dnt'', ''*MISSING_VALUE*'')], zeroDraws)"
  by (simp add: generateSample_def gen_defs sampler_defs)

lemma toy_http1_headers:
  "generateHeadersFromSample
     [(''*BROWSER_HTTP'', ''chrome/131.0.0.0|1''), (''*OPERATING_SYSTEM'', ''windows''),
      (''*DEVICE'', ''desktop''), (''*HTTP_VERSION'', ''1''), (''user-agent'', ''Mozilla/5.0''),
      (''dnt'', ''*MISSING_VALUE*'')] = [(''user-agent'', ''Mozilla/5.0'')]"
  by code_simp

lemma toy_fingerprint_sample:
  "generateConsistentSampleWhenPossible toyNetwork [(''userAgent'', [''Mozilla/5.0''])] zeroDraws
   = Some (Found [(''A'', ''a1''), (''B'', ''b1'')] zeroDraws)"
  by (simp add: generateConsistentSampleWhenPossible_def
      recursivelyGenerateConsistentSampleWhenPossible.simps toy_defs sampler_defs)

lemma toy_Generate:
  "headerGenerator g = toyGenerator \<Longrightarrow> headerConstraints g = emptyConstraints \<Longrightarrow>
   network g = toyNetwork \<Longrightarrow>
   Generate keepRaw g [] zeroDraws =
     Some (g, Returned ([(''A'', ''a1''), (''B'', ''b1'')],
                        [(''User-Agent'', ''Mozilla/5.0''), (''Accept-Language'', ''en-US;q=1.0''),
                         (''Sec-Fetch-Mode'', ''same-site''), (''Sec-Fetch-Dest'', ''navigate''),
                         (''Sec-Fetch-Site'', ''?1''), (''Sec-Fetch-User'', ''document'')],
                        mockWebRTC g, slim g) zeroDraws)"
  by (simp add: Generate_def toy_generate toy_fingerprint_sample keepRaw_def index_str_def)

lemma toLowerChar_idem: "toLowerChar (toLowerChar c) = toLowerChar c"
  by (simp add: toLowerChar_def upperLetters_def lowerLetters_def)

lemma toLowerChar_upper: "toLowerChar (toUpperChar c) = toLowerChar c"
  by (simp add: toLowerChar_def toUpperChar_def upperLetters_def lowerLetters_def)

lemma ToLower_titleFrom: "ToLower (titleFrom b k) = ToLower k"
  by (induction k arbitrary: b) (simp_all add: ToLower_def toLowerChar_idem toLowerChar_upper)

lemma ToLower_casedName: "ToLower (casedName k) = ToLower k"
  by (simp add: casedName_def pascalizeKey_def ToLower_titleFrom)

subsection \<open>The names of the generated headers\<close>

lemma keys_update: "fst ` set (AList.update k v al) = insert k (fst ` set al)"
  by (induction al) auto

lemma keys_fold_update:
  "fst ` set (fold (\<lambda>(k, v) h. AList.update (f k) v h) kvs acc) = fst ` set acc \<union> f ` fst ` set kvs"
proof (induction kvs arbitrary: acc)
  case Nil
  then show ?case by simp
next
  case (Cons kv kvs)
  obtain k v where kv: "kv = (k, v)" by (cases kv)
  have "fst ` set (fold (\<lambda>(k, v) h. AList.update (f k) v h) (kv # kvs) acc)
      = insert (f k) (fst ` set acc) \<union> f ` fst ` set kvs"
    by (simp add: kv Cons.IH keys_update)
  also have "\<dots> = fst ` set acc \<union> f ` fst ` set (kv # kvs)"
    by (simp add: kv)
  finally show ?case .
qed

lemma keys_addAcceptLanguage:
  "fst ` set (addAcceptLanguage constraints smp headers)
     \<subseteq> fst ` set headers \<union> {''accept-language'', ''Accept-Language''}"
  by (auto simp: addAcceptLanguage_def Let_def keys_update)

lemma keys_pascalizeHeaders:
  "fst ` set (pascalizeHeaders headers) = casedName ` fst ` set headers"
proof -
  have "pascalizeHeaders headers = fold (\<lambda>(k, v) h. AList.update (casedName k) v h) headers []"
    unfolding pascalizeHeaders_def casedName_def
    by (rule arg_cong[where f = "\<lambda>f. fold f headers []"]) auto
  then show ?thesis by (simp add: keys_fold_update)
qed

lemma keys_fold_plain:
  "fst ` set (fold (\<lambda>(k, v) h. AList.update k v h) kvs acc) = fst ` set acc \<union> fst ` set kvs"
  using keys_fold_update[of "\<lambda>k. k" kvs acc] by simp

lemma sec_fetch_attribute_names:
  "fst ` set http2SecFetchAttributes = set secFetchNames"
  "fst ` set http1SecFetchAttributes = set secFetchTitleNames"
  by (simp_all add: http1SecFetchAttributes_def http2SecFetchAttributes_def
      secFetchNames_def secFetchTitleNames_def)

lemma keys_addSecFetch:
  "fst ` set (addSecFetch smp headers) =
     fst ` set headers \<union>
     (case prepareHttpBrowserObject (index_str smp ''*BROWSER_HTTP'') of
        None \<Rightarrow> {}
      | Some b \<Rightarrow> if shouldAddSecFetch (Some b)
                  then (if IsHTTP2 b then set secFetchNames else set secFetchTitleNames)
                  else {})"
proof (cases "prepareHttpBrowserObject (index_str smp ''*BROWSER_HTTP'')")
  case None
  then show ?thesis by (simp add: addSecFetch_eq)
next
  case (Some b)
  then show ?thesis
    by (simp add: addSecFetch_eq keys_fold_plain sec_fetch_attribute_names)
qed

lemma casedName_sec_fetch_lists:
  "map casedName secFetchNames = secFetchTitleNames"
  "map casedName secFetchTitleNames = secFetchTitleNames"
  "map ToLower secFetchTitleNames = secFetchNames"
  "ToLower ''accept-language'' = ''accept-language''"
  "ToLower ''Accept-Language'' = ''accept-language''"
  by code_simp+

lemma shouldAddSecFetch_iff:
  "shouldAddSecFetch browser \<longleftrightarrow>
     (\<exists>b name major rest. browser = Some b \<and> browser_Name b = Some name \<and>
        Version b = major # rest \<and>
        (name = ''chrome'' \<and> 76 \<le> major \<or> name = ''firefox'' \<and> 90 \<le> major \<or>
         name = ''edge'' \<and> 79 \<le> major))"
proof (cases browser)
  case None
  then show ?thesis by (simp add: shouldAddSecFetch_def)
next
  case (Some b)
  show ?thesis
  proof (cases "browser_Name b")
    case None
    with Some show ?thesis by (simp add: shouldAddSecFetch_def)
  next
    case name: (Some name)
    show ?thesis
    proof (cases "Version b")
      case Nil
      with Some name show ?thesis by (simp add: shouldAddSecFetch_def)
    next
      case (Cons major rest)
      with Some name show ?thesis by (simp add: shouldAddSecFetch_def)
    qed
  qed
qed

lemma sec_fetch_sets:
  "casedName ` set secFetchNames = set secFetchTitleNames"
  "casedName ` set secFetchTitleNames = set secFetchTitleNames"
  "ToLower ` set secFetchTitleNames = set secFetchNames"
  using casedName_sec_fetch_lists(1-3) by (metis set_map)+

lemma accept_language_not_sec_fetch:
  "ToLower ''accept-language'' \<notin> set secFetchNames"
  "ToLower ''Accept-Language'' \<notin> set secFetchNames"
  by (simp_all add: casedName_sec_fetch_lists secFetchNames_def)

lemmas sec_defs = secFetchGenerator_def secFetchHeaderNetwork_def

lemma safari_merge:
  "mergeOptions secFetchGenerator (emptyConstraints\<lparr>Browsers := [''safari'']\<rparr>)
     = (defaultHeaderOptions\<lparr>Browsers := [''safari'']\<rparr>, None)"
  by (simp add: mergeOptions_eq sec_defs gen_defs unsupportedError_def)

lemma safari_prepare:
  "prepareConstraints secFetchGenerator (defaultHeaderOptions\<lparr>Browsers := [''safari'']\<rparr>) =
     Inr [(''*BROWSER_HTTP'', [''safari/17.0|2'']),
          (''*OPERATING_SYSTEM'', [''windows'', ''macos'', ''linux'', ''android'', ''ios'']),
          (''*DEVICE'', [''desktop'', ''mobile''])]"
  by (simp add: prepareConstraints_def getPossibleAttributeValues_def getBrowserHTTPOptions_def
      matchName_def filterBrowserHTTP_def filterOtherValues_def index_list_def sec_defs gen_defs)

lemma safari_input_sample:
  "generateConsistentSampleWhenPossible (inputGeneratorNetwork secFetchGenerator)
     [(''*BROWSER_HTTP'', [''safari/17.0|2'']),
      (''*OPERATING_SYSTEM'', [''windows'', ''macos'', ''linux'', ''android'', ''ios'']),
      (''*DEVICE'', [''desktop'', ''mobile''])] zeroDraws
   = Some (Found [(''*BROWSER_HTTP'', ''safari/17.0|2''), (''*OPERATING_SYSTEM'', ''windows''),
                  (''*DEVICE'', ''desktop'')] zeroDraws)"
  by (simp add: generateConsistentSampleWhenPossible_def
      recursivelyGenerateConsistentSampleWhenPossible.simps sec_defs gen_defs sampler_defs)

lemma safari_header_sample:
  "generateSample (headerGeneratorNetwork secFetchGenerator)
     [(''*BROWSER_HTTP'', ''safari/17.0|2''), (''*OPERATING_SYSTEM'', ''windows''),
      (''*DEVICE'', ''desktop'')] zeroDraws
   = (Inr [(''*BROWSER_HTTP'', ''safari/17.0|2''), (''*OPERATING_SYSTEM'', ''windows''),
           (''*DEVICE'', ''desktop''), (''*HTTP_VERSION'', ''2''), (''user-agent'', ''Mozilla/5.0''),
           (''sec-fetch-mode'', ''navigate''), (''sec-fetch-dest'', ''document''),
           (''sec-fetch-site'', ''none''), (''sec-fetch-user'', ''?1'')], zeroDraws)"
  by (simp add: generateSample_def sec_defs gen_defs sampler_defs)

lemma safari_header_steps:
  "pascalizeHeaders
     (addSecFetch
        [(''*BROWSER_HTTP'', ''safari/17.0|2''), (''*OPERATING_SYSTEM'', ''windows''),
         (''*DEVICE'', ''desktop''), (''*HTTP_VERSION'', ''2''), (''user-agent'', ''Mozilla/5.0''),
         (''sec-fetch-mode'', ''navigate''), (''sec-fetch-dest'', ''document''),
         (''sec-fetch-site'', ''none''), (''sec-fetch-user'', ''?1'')]
        (addAcceptLanguage (defaultHeaderOptions\<lparr>Browsers := [''safari'']\<rparr>)
           [(''*BROWSER_HTTP'', ''safari/17.0|2''), (''*OPERATING_SYSTEM'', ''windows''),
            (''*DEVICE'', ''desktop''), (''*HTTP_VERSION'', ''2''), (''user-agent'', ''Mozilla/5.0''),
            (''sec-fetch-mode'', ''navigate''), (''sec-fetch-dest'', ''document''),
            (''sec-fetch-site'', ''none''), (''sec-fetch-user'', ''?1'')]
           (generateHeadersFromSample
              [(''*BROWSER_HTTP'', ''safari/17.0|2''), (''*OPERATING_SYSTEM'', ''windows''),
               (''*DEVICE'', ''desktop''), (''*HTTP_VERSION'', ''2''),
               (''user-agent'', ''Mozilla/5.0''),
               (''sec-fetch-mode'', ''navigate''), (''sec-fetch-dest'', ''document''),
               (''sec-fetch-site'', ''none''), (''sec-fetch-user'', ''?1'')])))
   = [(''User-Agent'', ''Mozilla/5.0''), (''Sec-Fetch-Mode'', ''navigate''),
      (''Sec-Fetch-Dest'', ''document''), (''Sec-Fetch-Site'', ''none''),
      (''Sec-Fetch-User'', ''?1''), (''Accept-Language'', ''en-US;q=1.0'')]"
  "shouldAddSecFetch (prepareHttpBrowserObject ''safari/17.0|2'') = False"
  by code_simp+

subsection \<open>Which sampled names reach the header map\<close>

lemma keys_generateHeadersFromSample_fold_eq:
  "fst ` set (fold (\<lambda>(k, v) headers.
       if \<not> HasPrefix k ''*'' \<and> v \<noteq> missingValueToken then AList.update k v headers
       else headers) kvs acc)
   = fst ` set acc \<union> {k. \<exists>v. (k, v) \<in> set kvs \<and> \<not> HasPrefix k ''*'' \<and> v \<noteq> missingValueToken}"
proof (induction kvs arbitrary: acc)
  case Nil
  then show ?case by simp
next
  case (Cons kv kvs)
  let ?F = "\<lambda>(k, v) headers.
       if \<not> HasPrefix k ''*'' \<and> v \<noteq> missingValueToken then AList.update k v headers
       else headers"
  let ?S = "\<lambda>kvs. {k. \<exists>v. (k, v) \<in> set kvs \<and> \<not> HasPrefix k ''*'' \<and> v \<noteq> missingValueToken}"
  obtain k v where kv: "kv = (k, v)" by (cases kv)
  define acc' where "acc' = ?F kv acc"
  have step: "fold ?F (kv # kvs) acc = fold ?F kvs acc'"
    by (simp add: acc'_def)
  have first: "fst ` set acc' = fst ` set acc \<union> ?S [kv]"
    unfolding acc'_def kv by (auto simp: keys_update)
  have split: "?S (kv # kvs) = ?S [kv] \<union> ?S kvs"
    by auto
  have "fst ` set (fold ?F kvs acc') = fst ` set acc' \<union> ?S kvs"
    by (rule Cons.IH)
  also have "\<dots> = fst ` set acc \<union> ?S (kv # kvs)"
    unfolding first split by (simp add: Un_assoc)
  finally show ?case unfolding step .
qed

lemma mem_generateHeadersFromSample:
  "k \<in> fst ` set (generateHeadersFromSample smp) \<longleftrightarrow>
     (\<exists>v. (k, v) \<in> set smp \<and> \<not> HasPrefix k ''*'' \<and> v \<noteq> missingValueToken)"
  using keys_generateHeadersFromSample_fold_eq[of smp "[]"]
  by (simp add: generateHeadersFromSample_def set_eq_iff)

lemma distinct_fold_update_cond:
  "distinct (map fst acc) \<Longrightarrow>
   distinct (map fst (fold (\<lambda>(k, v) headers.
       if P k v then AList.update (f k) v headers else headers) kvs acc))"
  by (induction kvs arbitrary: acc) (auto simp: distinct_update)

lemma distinct_generateHeadersFromSample:
  "distinct (map fst (generateHeadersFromSample smp))"
  unfolding generateHeadersFromSample_def
  using distinct_fold_update_cond[of "[]" "\<lambda>k v. \<not> HasPrefix k ''*'' \<and> v \<noteq> missingValueToken"
      "\<lambda>k. k" smp]
  by simp

lemma distinct_fold_update_plain:
  "distinct (map fst acc) \<Longrightarrow>
   distinct (map fst (fold (\<lambda>(k, v) h. AList.update k v h) kvs acc))"
  by (induction kvs arbitrary: acc) (auto simp: distinct_update)

lemma distinct_addSecFetch:
  "distinct (map fst headers) \<Longrightarrow> distinct (map fst (addSecFetch smp headers))"
  by (simp add: addSecFetch_eq distinct_fold_update_plain split: option.splits)

lemma map_of_fold_update_cased:
  assumes "distinct (map fst kvs)" and "(k, v) \<in> set kvs"
    and "\<forall>k' \<in> fst ` set kvs. f k' = f k \<longrightarrow> k' = k"
  shows "map_of (fold (\<lambda>(k, v) h. AList.update (f k) v h) kvs acc) (f k) = Some v"
  using assms
proof (induction kvs rule: rev_induct)
  case Nil
  then show ?case by simp
next
  case (snoc kv kvs)
  obtain k' v' where kv: "kv = (k', v')" by (cases kv)
  show ?case
  proof (cases "k' = k")
    case True
    have "v' = v"
      using snoc.prems(1,2) True kv by (auto simp: image_iff)
    then show ?thesis by (simp add: kv True update_conv')
  next
    case False
    then have ne: "f k' \<noteq> f k" using snoc.prems(3) kv by auto
    have mem: "(k, v) \<in> set kvs" using snoc.prems(2) False kv by auto
    have "map_of (fold (\<lambda>(k, v) h. AList.update (f k) v h) kvs acc) (f k) = Some v"
      using snoc.prems(1,3) mem by (intro snoc.IH) auto
    then show ?thesis using ne by (simp add: kv update_conv')
  qed
qed

lemma map_of_pascalizeHeaders:
  assumes "distinct (map fst headers)" and "map_of headers k = Some v"
    and "\<forall>k' \<in> fst ` set headers. casedName k' = casedName k \<longrightarrow> k' = k"
  shows "map_of (pascalizeHeaders headers) (casedName k) = Some v"
proof -
  have eq: "pascalizeHeaders headers = fold (\<lambda>(k, v) h. AList.update (casedName k) v h) headers []"
    unfolding pascalizeHeaders_def casedName_def
    by (rule arg_cong[where f = "\<lambda>f. fold f headers []"]) auto
  have "(k, v) \<in> set headers" using assms(2) by (rule map_of_SomeD)
  then show ?thesis unfolding eq using assms(1,3) by (intro map_of_fold_update_cased)
qed

lemma isLetter_toLowerChar: "isLetter (toLowerChar c) = isLetter c"
  by (auto simp: isLetter_def toLowerChar_def upperLetters_def lowerLetters_def)

lemma toUpperChar_lower: "toUpperChar (toLowerChar c) = toUpperChar c"
  by (simp add: toLowerChar_def toUpperChar_def upperLetters_def lowerLetters_def)

lemma toLowerChar_other: "\<not> isLetter c \<Longrightarrow> toLowerChar c = c"
  by (auto simp: isLetter_def toLowerChar_def upperLetters_def lowerLetters_def)

lemma titleFrom_ToLower: "titleFrom b (ToLower k) = titleFrom b k"
  by (induction k arbitrary: b)
     (simp_all add: ToLower_def isLetter_toLowerChar toUpperChar_lower toLowerChar_idem
        toLowerChar_other)


lemma casedName_of_sec_fetch:
  "map (\<lambda>k. pascalizeKey k) secFetchNames = secFetchTitleNames"
  "set secFetchNames \<subseteq> set pascalizedNames"
  by code_simp+

lemma pascalizeKey_ToLower: "pascalizeKey (ToLower k) = pascalizeKey k"
  by (simp add: pascalizeKey_def titleFrom_ToLower)

lemma casedName_sec_fetch_iff:
  assumes "K \<in> set secFetchTitleNames"
  shows "casedName k = K \<longleftrightarrow> ToLower k = ToLower K"
proof
  assume "casedName k = K"
  then show "ToLower k = ToLower K" using ToLower_casedName[of k] by simp
next
  assume low: "ToLower k = ToLower K"
  have "ToLower K \<in> set secFetchNames" using assms sec_fetch_sets(3) by blast
  then have listed: "ToLower k \<in> set pascalizedNames"
    using low casedName_of_sec_fetch(2) by auto
  have "casedName K = K"
    using assms casedName_sec_fetch_lists(2)
    by (metis (no_types, lifting) in_set_conv_nth length_map nth_map)
  moreover have "casedName K = pascalizeKey K"
    using listed low by (simp add: casedName_def)
  moreover have "casedName k = pascalizeKey k"
    using listed by (simp add: casedName_def)
  moreover have "pascalizeKey k = pascalizeKey K"
    using low pascalizeKey_ToLower by metis
  ultimately show "casedName k = K" by simp
qed

lemma HasPrefix_star_ToLower:
  "HasPrefix k ''*'' \<Longrightarrow> HasPrefix (ToLower k) ''*''"
  by (cases k) (simp_all add: HasPrefix_def ToLower_def toLowerChar_def upperLetters_def
      lowerLetters_def)

lemma sec_fetch_name_no_star:
  "ToLower k \<in> set secFetchNames \<Longrightarrow> \<not> HasPrefix k ''*''"
  using HasPrefix_star_ToLower[of k]
  by (auto simp: secFetchNames_def HasPrefix_def)

lemma keys_addAcceptLanguage_lower:
  "fst ` set headers \<subseteq> fst ` set (addAcceptLanguage constraints smp headers)"
  by (auto simp: addAcceptLanguage_def Let_def keys_update)

lemma sec_fetch_keys_when_gate_passes:
  assumes gate: "shouldAddSecFetch (prepareHttpBrowserObject (index_str smp ''*BROWSER_HTTP''))"
    and headers_def: "headers = pascalizeHeaders (addSecFetch smp h2)"
  shows "set secFetchTitleNames \<subseteq> fst ` set headers"
proof -
  let ?browser = "prepareHttpBrowserObject (index_str smp ''*BROWSER_HTTP'')"
  have keys: "fst ` set headers = casedName ` fst ` set (addSecFetch smp h2)"
    by (simp add: headers_def keys_pascalizeHeaders)
  from gate obtain b where b: "?browser = Some b"
    by (auto simp: shouldAddSecFetch_iff)
  have "(if IsHTTP2 b then set secFetchNames else set secFetchTitleNames)
      \<subseteq> fst ` set (addSecFetch smp h2)"
    using gate b by (simp add: keys_addSecFetch)
  then have "casedName ` (if IsHTTP2 b then set secFetchNames else set secFetchTitleNames)
      \<subseteq> fst ` set headers"
    unfolding keys by (rule image_mono)
  then show ?thesis
    by (simp add: sec_fetch_sets split: if_splits)
qed

lemma sec_fetch_keys_when_gate_fails:
  assumes gate: "\<not> shouldAddSecFetch (prepareHttpBrowserObject (index_str smp ''*BROWSER_HTTP''))"
    and headers_def: "headers = pascalizeHeaders
      (addSecFetch smp (addAcceptLanguage constraints smp (generateHeadersFromSample smp)))"
    and K: "K \<in> set secFetchTitleNames"
  shows "K \<in> fst ` set headers \<longleftrightarrow>
     (\<exists>(k, v) \<in> set smp. ToLower k = ToLower K \<and> v \<noteq> missingValueToken)"
proof -
  let ?h1 = "generateHeadersFromSample smp"
  let ?h2 = "addAcceptLanguage constraints smp ?h1"
  let ?browser = "prepareHttpBrowserObject (index_str smp ''*BROWSER_HTTP'')"
  have lowK: "ToLower K \<in> set secFetchNames" using K sec_fetch_sets(3) by blast
  have same: "fst ` set (addSecFetch smp ?h2) = fst ` set ?h2"
    using gate by (cases ?browser) (simp_all add: keys_addSecFetch)
  have keys: "fst ` set headers = casedName ` fst ` set ?h2"
    by (simp add: headers_def keys_pascalizeHeaders same)
  have "K \<in> fst ` set headers \<longleftrightarrow> (\<exists>k \<in> fst ` set ?h2. ToLower k = ToLower K)"
    unfolding keys using casedName_sec_fetch_iff[OF K] by (metis (no_types, lifting) image_iff)
  also have "\<dots> \<longleftrightarrow> (\<exists>k \<in> fst ` set ?h1. ToLower k = ToLower K)"
  proof
    assume "\<exists>k \<in> fst ` set ?h2. ToLower k = ToLower K"
    then obtain k where k: "k \<in> fst ` set ?h2" and low: "ToLower k = ToLower K" by blast
    from k keys_addAcceptLanguage[of constraints smp ?h1]
    have "k \<in> fst ` set ?h1 \<or> k = ''accept-language'' \<or> k = ''Accept-Language''" by blast
    moreover have "k \<noteq> ''accept-language''" "k \<noteq> ''Accept-Language''"
      using low lowK accept_language_not_sec_fetch by auto
    ultimately show "\<exists>k \<in> fst ` set ?h1. ToLower k = ToLower K" using low by blast
  next
    assume "\<exists>k \<in> fst ` set ?h1. ToLower k = ToLower K"
    then show "\<exists>k \<in> fst ` set ?h2. ToLower k = ToLower K"
      using keys_addAcceptLanguage_lower[of ?h1 constraints smp] by blast
  qed
  also have "\<dots> \<longleftrightarrow> (\<exists>(k, v) \<in> set smp. ToLower k = ToLower K \<and> v \<noteq> missingValueToken)"
  proof
    assume "\<exists>k \<in> fst ` set ?h1. ToLower k = ToLower K"
    then obtain k where k: "k \<in> fst ` set ?h1" and low: "ToLower k = ToLower K" by blast
    from k obtain v where "(k, v) \<in> set smp" "v \<noteq> missingValueToken"
      unfolding mem_generateHeadersFromSample by blast
    with low show "\<exists>(k, v) \<in> set smp. ToLower k = ToLower K \<and> v \<noteq> missingValueToken"
      by blast
  next
    assume "\<exists>(k, v) \<in> set smp. ToLower k = ToLower K \<and> v \<noteq> missingValueToken"
    then obtain k v where kv: "(k, v) \<in> set smp" and low: "ToLower k = ToLower K"
      and v: "v \<noteq> missingValueToken" by blast
    have "\<not> HasPrefix k ''*''" using low lowK sec_fetch_name_no_star by simp
    with kv v have "k \<in> fst ` set ?h1"
      unfolding mem_generateHeadersFromSample by blast
    with low show "\<exists>k \<in> fst ` set ?h1. ToLower k = ToLower K" by blast
  qed
  finally show ?thesis .
qed

subsection \<open>The Accept-Language entry of the result\<close>

lemma accept_language_cased:
  "casedName ''accept-language'' = ''Accept-Language''"
  "casedName ''Accept-Language'' = ''Accept-Language''"
  "''accept-language'' \<notin> set secFetchNames \<union> set secFetchTitleNames"
  "''Accept-Language'' \<notin> set secFetchNames \<union> set secFetchTitleNames"
  "''Accept-Language'' \<notin> set secFetchTitleNames"
  "ToLower ''Accept-Language'' = ''accept-language''"
  by code_simp+

lemma accept_language_in_result:
  assumes name: "name = ''accept-language'' \<or> name = ''Accept-Language''"
    and headers_def: "headers = addSecFetch smp (AList.update name acceptLanguage
          (generateHeadersFromSample smp))"
    and only: "\<forall>(k, v) \<in> set smp.
        ToLower k = ''accept-language'' \<and> v \<noteq> missingValueToken \<longrightarrow> k = name"
  shows "map_of headers name = Some acceptLanguage"
    and "map_of (pascalizeHeaders headers) ''Accept-Language'' = Some acceptLanguage"
proof -
  let ?h1 = "generateHeadersFromSample smp"
  let ?h2 = "AList.update name acceptLanguage ?h1"
  have notsec: "name \<notin> set secFetchNames \<union> set secFetchTitleNames"
    using name accept_language_cased(3,4) by blast
  have cased: "casedName name = ''Accept-Language''"
    using name accept_language_cased(1,2) by auto
  have "map_of headers name = map_of ?h2 name"
    unfolding headers_def using notsec
    by (intro addSecFetch_other) (simp_all add: sec_fetch_attribute_names)
  then show bound: "map_of headers name = Some acceptLanguage"
    by (simp add: update_conv')
  have dist: "distinct (map fst headers)"
    unfolding headers_def
    by (intro distinct_addSecFetch distinct_update distinct_generateHeadersFromSample)
  have keys: "fst ` set headers \<subseteq>
      insert name (fst ` set ?h1) \<union> (set secFetchNames \<union> set secFetchTitleNames)"
    unfolding headers_def keys_addSecFetch keys_update
    by (auto split: option.splits if_splits)
  have uniq: "\<forall>k' \<in> fst ` set headers. casedName k' = casedName name \<longrightarrow> k' = name"
  proof (intro ballI impI)
    fix k' assume k': "k' \<in> fst ` set headers" and same: "casedName k' = casedName name"
    have low: "ToLower k' = ''accept-language''"
      using ToLower_casedName[of k'] same cased accept_language_cased(6) by simp
    from k' keys consider "k' = name" | "k' \<in> fst ` set ?h1"
      | "k' \<in> set secFetchNames \<union> set secFetchTitleNames" by blast
    then show "k' = name"
    proof cases
      case 1
      then show ?thesis .
    next
      case 2
      then obtain v where "(k', v) \<in> set smp" "v \<noteq> missingValueToken"
        unfolding mem_generateHeadersFromSample by blast
      with only low show ?thesis by blast
    next
      case 3
      then have "casedName k' \<in> set secFetchTitleNames"
        using sec_fetch_sets(1,2) by blast
      then show ?thesis using same cased accept_language_cased(5) by simp
    qed
  qed
  have "map_of (pascalizeHeaders headers) (casedName name) = Some acceptLanguage"
    by (rule map_of_pascalizeHeaders[OF dist bound uniq])
  then show "map_of (pascalizeHeaders headers) ''Accept-Language'' = Some acceptLanguage"
    by (simp add: cased)
qed

subsection \<open>Further runs of the small generator\<close>

lemma toy_safari_merge:
  "mergeOptions toyGenerator (emptyConstraints\<lparr>Browsers := [''safari'']\<rparr>)
     = (defaultHeaderOptions\<lparr>Browsers := [''safari'']\<rparr>, None)"
  by (simp add: mergeOptions_eq gen_defs unsupportedError_def)

lemma toy_safari_prepare:
  "prepareConstraints toyGenerator (defaultHeaderOptions\<lparr>Browsers := [''safari'']\<rparr>) =
     Inr [(''*BROWSER_HTTP'', [''safari/17.0|2'']),
          (''*OPERATING_SYSTEM'', [''windows'', ''macos'', ''linux'', ''android'', ''ios'']),
          (''*DEVICE'', [''desktop'', ''mobile''])]"
  by (simp add: prepareConstraints_def getPossibleAttributeValues_def getBrowserHTTPOptions_def
      matchName_def filterBrowserHTTP_def filterOtherValues_def index_list_def gen_defs)

lemma toy_safari_input_sample:
  "generateConsistentSampleWhenPossible (inputGeneratorNetwork toyGenerator)
     [(''*BROWSER_HTTP'', [''safari/17.0|2'']),
      (''*OPERATING_SYSTEM'', [''windows'', ''macos'', ''linux'', ''android'', ''ios'']),
      (''*DEVICE'', [''desktop'', ''mobile''])] zeroDraws
   = Some (Found [(''*BROWSER_HTTP'', ''safari/17.0|2''), (''*OPERATING_SYSTEM'', ''windows''),
                  (''*DEVICE'', ''desktop'')] zeroDraws)"
  by (simp add: generateConsistentSampleWhenPossible_def
      recursivelyGenerateConsistentSampleWhenPossible.simps gen_defs sampler_defs)

lemma toy_safari_header_sample:
  "generateSample (headerGeneratorNetwork toyGenerator)
     [(''*BROWSER_HTTP'', ''safari/17.0|2''), (''*OPERATING_SYSTEM'', ''windows''),
      (''*DEVICE'', ''desktop'')] zeroDraws
   = (Inr [(''*BROWSER_HTTP'', ''safari/17.0|2''), (''*OPERATING_SYSTEM'', ''windows''),
           (''*DEVICE'', ''desktop''), (''*HTTP_VERSION'', ''2''), (''user-agent'', ''Mozilla/5.0''),
           (''dnt'', ''*MISSING_VALUE*'')], zeroDraws)"
  by (simp add: generateSample_def gen_defs sampler_defs)

lemma toy_samples_bind_no_sec_fetch:
  "\<forall>(k, v) \<in> set [(''*BROWSER_HTTP'', ''chrome/131.0.0.0|2''), (''*OPERATING_SYSTEM'', ''windows''),
           (''*DEVICE'', ''desktop''), (''*HTTP_VERSION'', ''2''), (''user-agent'', ''Mozilla/5.0''),
           (''dnt'', ''*MISSING_VALUE*'')]. ToLower k \<in> set secFetchNames \<longrightarrow> v = missingValueToken"
  "\<forall>(k, v) \<in> set [(''*BROWSER_HTTP'', ''safari/17.0|2''), (''*OPERATING_SYSTEM'', ''windows''),
           (''*DEVICE'', ''desktop''), (''*HTTP_VERSION'', ''2''), (''user-agent'', ''Mozilla/5.0''),
           (''dnt'', ''*MISSING_VALUE*'')]. ToLower k \<in> set secFetchNames \<longrightarrow> v = missingValueToken"
  by code_simp+

lemma toy_browser_objects:
  "prepareHttpBrowserObject ''chrome/131.0.0.0|2'' =
      Some \<lparr>browser_Name = Some ''chrome'', Version = [131, 0, 0, 0],
            CompleteString = ''chrome/131.0.0.0|2'', browser_HTTPVersion = ''2''\<rparr>"
  "prepareHttpBrowserObject ''safari/17.0|2'' =
      Some \<lparr>browser_Name = Some ''safari'', Version = [17, 0],
            CompleteString = ''safari/17.0|2'', browser_HTTPVersion = ''2''\<rparr>"
  by code_simp+

lemma gate_passes_case:
  assumes "\<exists>headers. R headers \<and>
      (let gate = G in (gate \<longrightarrow> A headers) \<and> (\<not> gate \<longrightarrow> B headers) \<and>
                       (N \<longrightarrow> (if gate then A headers else C headers)))"
    and G
  shows "\<exists>headers. R headers \<and> A headers"
  using assms by (auto simp: Let_def)

lemma gate_fails_case:
  assumes "\<exists>headers. R headers \<and>
      (let gate = G in (gate \<longrightarrow> A headers) \<and> (\<not> gate \<longrightarrow> B headers) \<and>
                       (N \<longrightarrow> (if gate then A headers else C headers)))"
    and "\<not> G" and N
  shows "\<exists>headers. R headers \<and> C headers"
  using assms by (auto simp: Let_def)

lemma toy_locales_merge:
  "mergeOptions toyGenerator (emptyConstraints\<lparr>Locales := [''fr-FR'', ''en-US'']\<rparr>)
     = (defaultHeaderOptions\<lparr>Locales := [''fr-FR'', ''en-US'']\<rparr>, None)"
  by (simp add: mergeOptions_eq gen_defs unsupportedError_def)

lemma toy_locales_prepare:
  "prepareConstraints toyGenerator (defaultHeaderOptions\<lparr>Locales := [''fr-FR'', ''en-US'']\<rparr>) =
     Inr [(''*BROWSER_HTTP'', [''chrome/131.0.0.0|2'', ''safari/17.0|2'']),
          (''*OPERATING_SYSTEM'', [''windows'', ''macos'', ''linux'', ''android'', ''ios'']),
          (''*DEVICE'', [''desktop'', ''mobile''])]"
  by (simp add: prepareConstraints_def getPossibleAttributeValues_def getBrowserHTTPOptions_def
      matchName_def filterBrowserHTTP_def filterOtherValues_def index_list_def gen_defs)

lemma toy_locales_steps:
  "index_str [(''*BROWSER_HTTP'', ''chrome/131.0.0.0|2''), (''*OPERATING_SYSTEM'', ''windows''),
         (''*DEVICE'', ''desktop''), (''*HTTP_VERSION'', ''2''), (''user-agent'', ''Mozilla/5.0''),
         (''dnt'', ''*MISSING_VALUE*'')] ''*HTTP_VERSION'' = ''2''"
  "Join (map (\<lambda>(i, l). l @ '';q='' @ formatTenths (10 - i))
           (zip [0..<10] [''fr-FR'', ''en-US''])) '', '' = ''fr-FR;q=1.0, en-US;q=0.9''"
  "addSecFetch
     [(''*BROWSER_HTTP'', ''chrome/131.0.0.0|2''), (''*OPERATING_SYSTEM'', ''windows''),
      (''*DEVICE'', ''desktop''), (''*HTTP_VERSION'', ''2''), (''user-agent'', ''Mozilla/5.0''),
      (''dnt'', ''*MISSING_VALUE*'')]
     (AList.update ''accept-language'' ''fr-FR;q=1.0, en-US;q=0.9''
        (generateHeadersFromSample
           [(''*BROWSER_HTTP'', ''chrome/131.0.0.0|2''), (''*OPERATING_SYSTEM'', ''windows''),
            (''*DEVICE'', ''desktop''), (''*HTTP_VERSION'', ''2''), (''user-agent'', ''Mozilla/5.0''),
            (''dnt'', ''*MISSING_VALUE*'')]))
   = [(''user-agent'', ''Mozilla/5.0''), (''accept-language'', ''fr-FR;q=1.0, en-US;q=0.9''),
      (''sec-fetch-mode'', ''same-site''), (''sec-fetch-dest'', ''navigate''),
      (''sec-fetch-site'', ''?1''), (''sec-fetch-user'', ''document'')]"
  "pascalizeHeaders
     [(''user-agent'', ''Mozilla/5.0''), (''accept-language'', ''fr-FR;q=1.0, en-US;q=0.9''),
      (''sec-fetch-mode'', ''same-site''), (''sec-fetch-dest'', ''navigate''),
      (''sec-fetch-site'', ''?1''), (''sec-fetch-user'', ''document'')]
   = [(''User-Agent'', ''Mozilla/5.0''), (''Accept-Language'', ''fr-FR;q=1.0, en-US;q=0.9''),
      (''Sec-Fetch-Mode'', ''same-site''), (''Sec-Fetch-Dest'', ''navigate''),
      (''Sec-Fetch-Site'', ''?1''), (''Sec-Fetch-User'', ''document'')]"
  by code_simp+

section \<open>Claims about the header and fingerprint generators\<close>

text \<open>
  Claim C8, as amended. In option merging, for each of browsers, os and devices the
  user values are checked against the supported set and the supported ones, when there
  are any, replace the default; when all user-supplied browser values are unsupported
  the merged browsers list is the default list (it does not become empty), and the
  validation error is returned alongside the merged result. The error is absent exactly
  when every user value is supported and the HTTP version is empty or supported.
\<close>

theorem merge_validates_each_field:
  "mergeOptions g userOptions = (merged, err) \<longrightarrow>
     Browsers merged =
       (if filter (\<lambda>v. v \<in> set SupportedBrowsers) (Browsers userOptions) \<noteq> []
        then filter (\<lambda>v. v \<in> set SupportedBrowsers) (Browsers userOptions)
        else Browsers (options g)) \<and>
     OS merged =
       (if filter (\<lambda>v. v \<in> set SupportedOS) (OS userOptions) \<noteq> []
        then filter (\<lambda>v. v \<in> set SupportedOS) (OS userOptions)
        else OS (options g)) \<and>
     Devices merged =
       (if filter (\<lambda>v. v \<in> set SupportedDevices) (Devices userOptions) \<noteq> []
        then filter (\<lambda>v. v \<in> set SupportedDevices) (Devices userOptions)
        else Devices (options g)) \<and>
     (Browsers userOptions \<noteq> [] \<and> set (Browsers userOptions) \<inter> set SupportedBrowsers = {} \<longrightarrow>
        Browsers merged = Browsers (options g) \<and>
        (\<exists>errs. err = Some (ValidationErrors errs) \<and>
                ValuesNotSupported (Browsers userOptions) \<in> set errs)) \<and>
     (err = None \<longleftrightarrow>
        set (Browsers userOptions) \<subseteq> set SupportedBrowsers \<and>
        set (OS userOptions) \<subseteq> set SupportedOS \<and>
        set (Devices userOptions) \<subseteq> set SupportedDevices \<and>
        (HTTPVersion userOptions = [] \<or> HTTPVersion userOptions \<in> set SupportedHTTP))"
proof
  assume m: "mergeOptions g userOptions = (merged, err)"
  then have merged: "merged = fst (mergeOptions g userOptions)"
    and err: "err = snd (mergeOptions g userOptions)" by simp_all
  have fields: "Browsers merged =
       (if filter (\<lambda>v. v \<in> set SupportedBrowsers) (Browsers userOptions) \<noteq> []
        then filter (\<lambda>v. v \<in> set SupportedBrowsers) (Browsers userOptions)
        else Browsers (options g))"
    "OS merged =
       (if filter (\<lambda>v. v \<in> set SupportedOS) (OS userOptions) \<noteq> []
        then filter (\<lambda>v. v \<in> set SupportedOS) (OS userOptions)
        else OS (options g))"
    "Devices merged =
       (if filter (\<lambda>v. v \<in> set SupportedDevices) (Devices userOptions) \<noteq> []
        then filter (\<lambda>v. v \<in> set SupportedDevices) (Devices userOptions)
        else Devices (options g))"
    unfolding merged mergeOptions_eq by simp_all
  have unsupported: "Browsers merged = Browsers (options g) \<and>
        (\<exists>errs. err = Some (ValidationErrors errs) \<and>
                ValuesNotSupported (Browsers userOptions) \<in> set errs)"
    if "Browsers userOptions \<noteq> []" "set (Browsers userOptions) \<inter> set SupportedBrowsers = {}"
    using unsupportedError_all[OF that] fields(1)
    unfolding err mergeOptions_eq by (simp add: Let_def)
  have clean: "err = None \<longleftrightarrow>
        set (Browsers userOptions) \<subseteq> set SupportedBrowsers \<and>
        set (OS userOptions) \<subseteq> set SupportedOS \<and>
        set (Devices userOptions) \<subseteq> set SupportedDevices \<and>
        (HTTPVersion userOptions = [] \<or> HTTPVersion userOptions \<in> set SupportedHTTP)"
    unfolding err mergeOptions_eq
    by (auto simp: Let_def unsupportedError_empty)
  from fields unsupported clean show "Browsers merged =
       (if filter (\<lambda>v. v \<in> set SupportedBrowsers) (Browsers userOptions) \<noteq> []
        then filter (\<lambda>v. v \<in> set SupportedBrowsers) (Browsers userOptions)
        else Browsers (options g)) \<and>
     OS merged =
       (if filter (\<lambda>v. v \<in> set SupportedOS) (OS userOptions) \<noteq> []
        then filter (\<lambda>v. v \<in> set SupportedOS) (OS userOptions)
        else OS (options g)) \<and>
     Devices merged =
       (if filter (\<lambda>v. v \<in> set SupportedDevices) (Devices userOptions) \<noteq> []
        then filter (\<lambda>v. v \<in> set SupportedDevices) (Devices userOptions)
        else Devices (options g)) \<and>
     (Browsers userOptions \<noteq> [] \<and> set (Browsers userOptions) \<inter> set SupportedBrowsers = {} \<longrightarrow>
        Browsers merged = Browsers (options g) \<and>
        (\<exists>errs. err = Some (ValidationErrors errs) \<and>
                ValuesNotSupported (Browsers userOptions) \<in> set errs)) \<and>
     (err = None \<longleftrightarrow>
        set (Browsers userOptions) \<subseteq> set SupportedBrowsers \<and>
        set (OS userOptions) \<subseteq> set SupportedOS \<and>
        set (Devices userOptions) \<subseteq> set SupportedDevices \<and>
        (HTTPVersion userOptions = [] \<or> HTTPVersion userOptions \<in> set SupportedHTTP))"
    by blast
qed

theorem merge_validates_each_field_witness:
  "mergeOptions toyGenerator (emptyConstraints\<lparr>Browsers := [''netscape'']\<rparr>) =
     (defaultHeaderOptions, Some (ValidationErrors [ValuesNotSupported [''netscape'']])) \<and>
   Browsers defaultHeaderOptions = Browsers (options toyGenerator) \<and>
   OS defaultHeaderOptions = OS (options toyGenerator) \<and>
   ValuesNotSupported [''netscape''] \<in> set [ValuesNotSupported [''netscape'']]"
  using merge_validates_each_field[of toyGenerator "emptyConstraints\<lparr>Browsers := [''netscape'']\<rparr>"
      defaultHeaderOptions "Some (ValidationErrors [ValuesNotSupported [''netscape'']])"]
  by (simp add: toy_netscape toy_fields)

text \<open>
  The claim as stated fails: with the only user browser \<open>netscape\<close> the merged list is
  the default list of four browsers, not the empty list.
\<close>

theorem unsupported_browsers_keep_default:
  "mergeOptions toyGenerator (emptyConstraints\<lparr>Browsers := [''netscape'']\<rparr>) =
     (defaultHeaderOptions, Some (ValidationErrors [ValuesNotSupported [''netscape'']])) \<and>
   Browsers defaultHeaderOptions = [''chrome'', ''firefox'', ''safari'', ''edge'']"
  by (simp add: toy_netscape) (simp add: gen_defs)

text \<open>
  Claim C5. When the input sample is found and the merged locale list is not empty,
  \<open>GenerateHeaders\<close> puts into the header map it builds from the header sample the
  Accept-Language value: the entries \<open>l_i;q=(10 - i)/10\<close> for the first ten positions
  \<open>i\<close> of the merged locales, the quality values being \<open>1.0, 0.9, ..., 0.1\<close>, joined
  with a comma and a space. It stores the value under \<open>accept-language\<close> when the sampled
  \<open>*HTTP_VERSION\<close> is \<open>2\<close> and under \<open>Accept-Language\<close> otherwise, and the Sec-Fetch step
  that follows leaves it there. What the call returns is that map after the casing step
  when the merged HTTP version is \<open>2\<close>, and the nil map otherwise; after the casing step
  the value is under \<open>Accept-Language\<close>, provided the sample holds no other header name
  that differs from the name used only in letter case.
\<close>

theorem accept_language_synthesis:
  assumes "mergeOptions g opts = (constraints, None)"
    and "prepareConstraints g constraints = Inr inputConstraints"
    and "generateConsistentSampleWhenPossible (inputGeneratorNetwork g) inputConstraints r
         = Some (Found inputSample r1)"
    and "generateSample (headerGeneratorNetwork g) inputSample r1 = (Inr smp, r2)"
    and "Locales constraints \<noteq> []"
  shows "let name = (if index_str smp ''*HTTP_VERSION'' = ''2'' then ''accept-language''
                     else ''Accept-Language'');
             acceptLanguage = Join (map (\<lambda>(i, l). l @ '';q='' @ formatTenths (10 - i))
                                      (zip [0..<10] (Locales constraints))) '', '';
             headers = addSecFetch smp
                         (AList.update name acceptLanguage (generateHeadersFromSample smp))
         in generateAcceptLanguageHeader (Locales constraints) = acceptLanguage \<and>
            map (\<lambda>i. formatTenths (10 - i)) [0..<10] =
              [''1.0'', ''0.9'', ''0.8'', ''0.7'', ''0.6'', ''0.5'', ''0.4'', ''0.3'', ''0.2'', ''0.1''] \<and>
            map_of headers name = Some acceptLanguage \<and>
            GenerateHeaders g opts r =
              Some (Returned (if HTTPVersion constraints = ''2''
                              then Some (pascalizeHeaders headers) else None) r2) \<and>
            ((\<forall>(k, v) \<in> set smp.
                 ToLower k = ''accept-language'' \<and> v \<noteq> missingValueToken \<longrightarrow> k = name) \<longrightarrow>
             map_of (pascalizeHeaders headers) ''Accept-Language'' = Some acceptLanguage)"
proof -
  define name where "name = (if index_str smp ''*HTTP_VERSION'' = ''2'' then ''accept-language''
                     else ''Accept-Language'')"
  define acceptLanguage where "acceptLanguage =
      Join (map (\<lambda>(i, l). l @ '';q='' @ formatTenths (10 - i))
              (zip [0..<10] (Locales constraints))) '', ''"
  define headers where "headers = addSecFetch smp
      (AList.update name acceptLanguage (generateHeadersFromSample smp))"
  have val: "generateAcceptLanguageHeader (Locales constraints) = acceptLanguage"
    by (simp add: generateAcceptLanguageHeader_def acceptLanguageParts_zip acceptLanguage_def)
  have tenths: "map (\<lambda>i. formatTenths (10 - i)) [0..<10] =
      [''1.0'', ''0.9'', ''0.8'', ''0.7'', ''0.6'', ''0.5'', ''0.4'', ''0.3'', ''0.2'', ''0.1'']"
    by code_simp
  have step: "addAcceptLanguage constraints smp (generateHeadersFromSample smp) =
      AList.update name acceptLanguage (generateHeadersFromSample smp)"
    using assms(5) by (simp add: addAcceptLanguage_def Let_def val name_def)
  have "GenerateHeaders g opts r = Some (headersFromInputSample g constraints inputSample r1)"
    by (rule GenerateHeaders_found[OF assms(1-3)])
  also have "headersFromInputSample g constraints inputSample r1 =
      Returned (if HTTPVersion constraints = ''2''
                then Some (pascalizeHeaders headers) else None) r2"
    by (simp add: headersFromInputSample_def assms(4) Let_def step headers_def)
  finally have run: "GenerateHeaders g opts r =
      Some (Returned (if HTTPVersion constraints = ''2''
                      then Some (pascalizeHeaders headers) else None) r2)" .
  have nm: "name = ''accept-language'' \<or> name = ''Accept-Language''"
    by (simp add: name_def)
  have bound: "map_of headers name = Some acceptLanguage"
  proof -
    have notsec: "name \<notin> set secFetchNames \<union> set secFetchTitleNames"
      using nm accept_language_cased(3,4) by blast
    have "map_of headers name =
        map_of (AList.update name acceptLanguage (generateHeadersFromSample smp)) name"
      unfolding headers_def using notsec
      by (intro addSecFetch_other) (simp_all add: sec_fetch_attribute_names)
    then show ?thesis by (simp add: update_conv')
  qed
  have cased: "map_of (pascalizeHeaders headers) ''Accept-Language'' = Some acceptLanguage"
    if "\<forall>(k, v) \<in> set smp.
          ToLower k = ''accept-language'' \<and> v \<noteq> missingValueToken \<longrightarrow> k = name"
    by (rule accept_language_in_result(2)[OF nm headers_def that])
  show ?thesis
    unfolding Let_def name_def[symmetric] acceptLanguage_def[symmetric] headers_def[symmetric]
    using val tenths bound run cased by blast
qed

theorem accept_language_synthesis_witness:
  "GenerateHeaders toyGenerator (emptyConstraints\<lparr>Locales := [''fr-FR'', ''en-US'']\<rparr>) zeroDraws
     = Some (Returned (Some
         [(''User-Agent'', ''Mozilla/5.0''), (''Accept-Language'', ''fr-FR;q=1.0, en-US;q=0.9''),
          (''Sec-Fetch-Mode'', ''same-site''), (''Sec-Fetch-Dest'', ''navigate''),
          (''Sec-Fetch-Site'', ''?1''), (''Sec-Fetch-User'', ''document'')]) zeroDraws) \<and>
   generateAcceptLanguageHeader [''fr-FR'', ''en-US''] = ''fr-FR;q=1.0, en-US;q=0.9'' \<and>
   map_of [(''user-agent'', ''Mozilla/5.0''), (''accept-language'', ''fr-FR;q=1.0, en-US;q=0.9''),
           (''sec-fetch-mode'', ''same-site''), (''sec-fetch-dest'', ''navigate''),
           (''sec-fetch-site'', ''?1''), (''sec-fetch-user'', ''document'')] ''accept-language''
     = Some ''fr-FR;q=1.0, en-US;q=0.9''"
proof -
  have s: "generateConsistentSampleWhenPossible (inputGeneratorNetwork toyGenerator)
     [(''*BROWSER_HTTP'', [''chrome/131.0.0.0|2'', ''safari/17.0|2'']),
      (''*OPERATING_SYSTEM'', [''windows'', ''macos'', ''linux'', ''android'', ''ios'']),
      (''*DEVICE'', [''desktop'', ''mobile''])] zeroDraws
   = Some (Found [(''*BROWSER_HTTP'', ''chrome/131.0.0.0|2''), (''*OPERATING_SYSTEM'', ''windows''),
                  (''*DEVICE'', ''desktop'')] zeroDraws)"
    by (simp add: toy_fields toy_input_sample)
  have h: "generateSample (headerGeneratorNetwork toyGenerator)
     [(''*BROWSER_HTTP'', ''chrome/131.0.0.0|2''), (''*OPERATING_SYSTEM'', ''windows''),
      (''*DEVICE'', ''desktop'')] zeroDraws
   = (Inr [(''*BROWSER_HTTP'', ''chrome/131.0.0.0|2''), (''*OPERATING_SYSTEM'', ''windows''),
           (''*DEVICE'', ''desktop''), (''*HTTP_VERSION'', ''2''), (''user-agent'', ''Mozilla/5.0''),
           (''dnt'', ''*MISSING_VALUE*'')], zeroDraws)"
    by (simp add: toy_fields toy_header_sample)
  have l: "Locales (defaultHeaderOptions\<lparr>Locales := [''fr-FR'', ''en-US'']\<rparr>) \<noteq> []"
    "Locales (defaultHeaderOptions\<lparr>Locales := [''fr-FR'', ''en-US'']\<rparr>) = [''fr-FR'', ''en-US'']"
    "HTTPVersion (defaultHeaderOptions\<lparr>Locales := [''fr-FR'', ''en-US'']\<rparr>) = ''2''"
    by (simp_all add: defaultHeaderOptions_def)
  show ?thesis
    using accept_language_synthesis[OF toy_locales_merge toy_locales_prepare s h l(1)]
    unfolding Let_def l(2,3) toy_locales_steps
    by (simp add: toy_locales_steps)
qed

text \<open>
  Claim C10, as amended. \<open>prepareHttpBrowserObject\<close> returns nil exactly for the strings
  other than the missing-value token that do not have exactly one \<open>|\<close> with exactly
  one \<open>/\<close> before it; the token gives a record with a nil name and no version. In both
  cases the Sec-Fetch step leaves the header map as it is, and header generation returns
  the headers built without it, with no error.
\<close>

theorem malformed_browser_string_skips_sec_fetch:
  "(prepareHttpBrowserObject s = None \<longleftrightarrow>
      s \<noteq> missingValueToken \<and>
      \<not> (count_list s (CHR ''|'') = 1 \<and>
         count_list (takeWhile (\<lambda>c. c \<noteq> CHR ''|'') s) (CHR ''/'') = 1)) \<and>
   prepareHttpBrowserObject missingValueToken =
     Some \<lparr>browser_Name = None, Version = [], CompleteString = missingValueToken,
           browser_HTTPVersion = []\<rparr> \<and>
   (prepareHttpBrowserObject (index_str smp ''*BROWSER_HTTP'') = None \<or>
    index_str smp ''*BROWSER_HTTP'' = missingValueToken \<longrightarrow>
      addSecFetch smp headers = headers \<and>
      (generateSample (headerGeneratorNetwork g) inputSample r = (Inr smp, r') \<longrightarrow>
         headersFromInputSample g constraints inputSample r =
           Returned (if HTTPVersion constraints = ''2''
                     then Some (pascalizeHeaders
                            (addAcceptLanguage constraints smp (generateHeadersFromSample smp)))
                     else None) r'))"
proof (intro conjI impI)
  show "prepareHttpBrowserObject s = None \<longleftrightarrow>
      s \<noteq> missingValueToken \<and>
      \<not> (count_list s (CHR ''|'') = 1 \<and>
         count_list (takeWhile (\<lambda>c. c \<noteq> CHR ''|'') s) (CHR ''/'') = 1)"
    by (rule prepareHttpBrowserObject_None)
  show "prepareHttpBrowserObject missingValueToken =
     Some \<lparr>browser_Name = None, Version = [], CompleteString = missingValueToken,
           browser_HTTPVersion = []\<rparr>"
    by (simp add: prepareHttpBrowserObject_def)
next
  assume "prepareHttpBrowserObject (index_str smp ''*BROWSER_HTTP'') = None \<or>
    index_str smp ''*BROWSER_HTTP'' = missingValueToken"
  then show same: "addSecFetch smp headers = headers" for headers
    by (auto simp: addSecFetch_eq prepareHttpBrowserObject_def shouldAddSecFetch_def)
  assume "generateSample (headerGeneratorNetwork g) inputSample r = (Inr smp, r')"
  then show "headersFromInputSample g constraints inputSample r =
      Returned (if HTTPVersion constraints = ''2''
                then Some (pascalizeHeaders
                       (addAcceptLanguage constraints smp (generateHeadersFromSample smp)))
                else None) r'"
    by (simp add: headersFromInputSample_def Let_def same)
qed

theorem malformed_browser_string_skips_sec_fetch_witness:
  "prepareHttpBrowserObject ''chrome'' = None \<and>
   addSecFetch [(''*BROWSER_HTTP'', ''chrome''), (''*HTTP_VERSION'', ''2''),
                (''user-agent'', ''Mozilla/5.0''), (''dnt'', ''*MISSING_VALUE*'')]
     [(''user-agent'', ''Mozilla/5.0'')] = [(''user-agent'', ''Mozilla/5.0'')] \<and>
   headersFromInputSample toyGenerator defaultHeaderOptions [(''*BROWSER_HTTP'', ''chrome'')] zeroDraws
   = Returned (Some [(''User-Agent'', ''Mozilla/5.0''), (''Accept-Language'', ''en-US;q=1.0'')])
       zeroDraws"
  using malformed_browser_string_skips_sec_fetch[where s = "''chrome''"
      and smp = "[(''*BROWSER_HTTP'', ''chrome''), (''*HTTP_VERSION'', ''2''),
                  (''user-agent'', ''Mozilla/5.0''), (''dnt'', ''*MISSING_VALUE*'')]"
      and headers = "[(''user-agent'', ''Mozilla/5.0'')]" and g = toyGenerator
      and inputSample = "[(''*BROWSER_HTTP'', ''chrome'')]" and r = zeroDraws and r' = zeroDraws
      and constraints = defaultHeaderOptions]
  by (simp add: toy_malformed_steps toy_malformed_sample toy_fields)
     (simp add: defaultHeaderOptions_def)

text \<open>
  The claim as stated fails for a string with a second \<open>/\<close> after the \<open>|\<close>: it has two
  \<open>/\<close>, yet it parses, and the Sec-Fetch headers are added.
\<close>

theorem second_slash_still_parses:
  "prepareHttpBrowserObject ''chrome/100|2/3'' =
     Some \<lparr>browser_Name = Some ''chrome'', Version = [100],
           CompleteString = ''chrome/100|2/3'', browser_HTTPVersion = ''2/3''\<rparr> \<and>
   count_list ''chrome/100|2/3'' (CHR ''/'') = 2 \<and>
   addSecFetch [(''*BROWSER_HTTP'', ''chrome/100|2/3'')] [] = http1SecFetchAttributes"
  by (simp add: toy_two_slashes)

text \<open>
  Claim C2. When restricted sampling on the input network fails, \<open>GenerateHeaders\<close>
  retries with the HTTP version forced to \<open>2\<close> if the merged version is \<open>1\<close>; otherwise
  it returns the error of strict mode if \<open>strict\<close> is set; otherwise it retries with
  locales and devices cleared. The headers of a retry are passed through
  \<open>pascalizeHeaders\<close>, and an error comes from the strict branch or from the retry only.
\<close>

theorem fallback_chain:
  assumes "mergeOptions g opts = (constraints, None)"
    and "prepareConstraints g constraints = Inr inputConstraints"
    and "generateConsistentSampleWhenPossible (inputGeneratorNetwork g) inputConstraints r
         = Some (NotFound smp r1)"
  shows "GenerateHeaders g opts r =
     (if HTTPVersion constraints = ''1''
      then map_option pascalizeRetried
             (GenerateHeaders g (constraints\<lparr>HTTPVersion := ''2''\<rparr>) r1)
      else if Strict constraints then Some (Failed NoHeadersForInput r1)
      else map_option pascalizeRetried
             (GenerateHeaders g (constraints\<lparr>Locales := [], Devices := []\<rparr>) r1)) \<and>
     (GenerateHeaders g opts r = Some (Failed err r') \<longrightarrow>
        HTTPVersion constraints \<noteq> ''1'' \<and> Strict constraints \<and> err = NoHeadersForInput \<and> r' = r1
        \<or> HTTPVersion constraints = ''1'' \<and>
          GenerateHeaders g (constraints\<lparr>HTTPVersion := ''2''\<rparr>) r1 = Some (Failed err r')
        \<or> HTTPVersion constraints \<noteq> ''1'' \<and> \<not> Strict constraints \<and>
          GenerateHeaders g (constraints\<lparr>Locales := [], Devices := []\<rparr>) r1
            = Some (Failed err r'))"
proof -
  note eq = GenerateHeaders_not_found[OF assms]
  have "HTTPVersion constraints \<noteq> ''1'' \<and> Strict constraints \<and> err = NoHeadersForInput \<and> r' = r1
        \<or> HTTPVersion constraints = ''1'' \<and>
          GenerateHeaders g (constraints\<lparr>HTTPVersion := ''2''\<rparr>) r1 = Some (Failed err r')
        \<or> HTTPVersion constraints \<noteq> ''1'' \<and> \<not> Strict constraints \<and>
          GenerateHeaders g (constraints\<lparr>Locales := [], Devices := []\<rparr>) r1
            = Some (Failed err r')"
    if "GenerateHeaders g opts r = Some (Failed err r')"
    using that unfolding eq
    by (auto simp: pascalizeRetried_Failed split: if_splits)
  with eq show ?thesis by blast
qed

theorem fallback_chain_witness:
  "GenerateHeaders toyGenerator
     (emptyConstraints\<lparr>OS := [''linux''], HTTPVersion := ''1'', Strict := True\<rparr>) zeroDraws
   = Some (Failed NoHeadersForInput zeroDraws)"
proof -
  have s: "generateConsistentSampleWhenPossible (inputGeneratorNetwork toyGenerator)
     [(''*BROWSER_HTTP'', [''chrome/131.0.0.0|1'']), (''*OPERATING_SYSTEM'', [''linux'']),
      (''*DEVICE'', [''desktop'', ''mobile''])] zeroDraws = Some (NotFound [] zeroDraws)"
    by (simp add: toy_fields toy_linux_sample)
  have retry: "GenerateHeaders toyGenerator
     (defaultHeaderOptions\<lparr>OS := [''linux''], HTTPVersion := ''1'', Strict := True,
        HTTPVersion := ''2''\<rparr>) zeroDraws = Some (Failed NoHeadersForInput zeroDraws)"
    using toy_linux_retry by (simp add: defaultHeaderOptions_def)
  show ?thesis
    using fallback_chain[OF toy_linux_merge(1) toy_linux_prepare(1) s] retry
    by (simp add: pascalizeRetried_def)
qed

text \<open>
  Claim C1 does not hold of the code. With the merged HTTP version \<open>1\<close> and a successful
  input sample, \<open>GenerateHeaders\<close> ends in \<open>return nil, nil\<close>: on the small generator the
  header sample binds \<open>user-agent\<close>, the map built from it holds that header, and the
  call returns the nil map with no error.
\<close>

theorem http1_request_returns_no_headers:
  "GenerateHeaders toyGenerator (emptyConstraints\<lparr>HTTPVersion := ''1''\<rparr>) zeroDraws
     = Some (Returned None zeroDraws) \<and>
   generateSample (headerGeneratorNetwork toyGenerator)
     [(''*BROWSER_HTTP'', ''chrome/131.0.0.0|1''), (''*OPERATING_SYSTEM'', ''windows''),
      (''*DEVICE'', ''desktop'')] zeroDraws
   = (Inr [(''*BROWSER_HTTP'', ''chrome/131.0.0.0|1''), (''*OPERATING_SYSTEM'', ''windows''),
           (''*DEVICE'', ''desktop''), (''*HTTP_VERSION'', ''1''), (''user-agent'', ''Mozilla/5.0''),
           (''dnt'', ''*MISSING_VALUE*'')], zeroDraws) \<and>
   generateHeadersFromSample
     [(''*BROWSER_HTTP'', ''chrome/131.0.0.0|1''), (''*OPERATING_SYSTEM'', ''windows''),
      (''*DEVICE'', ''desktop''), (''*HTTP_VERSION'', ''1''), (''user-agent'', ''Mozilla/5.0''),
      (''dnt'', ''*MISSING_VALUE*'')] = [(''user-agent'', ''Mozilla/5.0'')]"
proof -
  have "GenerateHeaders toyGenerator (emptyConstraints\<lparr>HTTPVersion := ''1''\<rparr>) zeroDraws
     = Some (headersFromInputSample toyGenerator (defaultHeaderOptions\<lparr>HTTPVersion := ''1''\<rparr>)
         [(''*BROWSER_HTTP'', ''chrome/131.0.0.0|1''), (''*OPERATING_SYSTEM'', ''windows''),
          (''*DEVICE'', ''desktop'')] zeroDraws)"
    by (rule GenerateHeaders_found[OF toy_http1_merge toy_http1_prepare])
       (simp add: toy_fields toy_http1_input_sample)
  then show ?thesis
    by (simp add: headersFromInputSample_def toy_fields toy_http1_header_sample toy_http1_headers
        Let_def)
qed

text \<open>
  Claim C9, as amended. After a call of \<open>Generate\<close> the generator is the one obtained by
  applying the per-call options, in order, to the generator before the call: with no
  option it is unchanged, and the exported options never change the network nor the
  header generator (with its networks and stored default options). \<open>GenerateHeaders\<close>
  assigns to no field of its generator, which the model reads only.
\<close>

theorem generate_changes_only_through_options:
  "(Generate transform g opts r = Some (g', res) \<longrightarrow> g' = fold (\<lambda>opt g. opt g) opts g) \<and>
   (Generate transform g [] r = Some (g', res) \<longrightarrow> g' = g) \<and>
   (Generate transform g opts r = Some (g', res) \<and>
    set opts \<subseteq> range WithScreen \<union> range WithStrict \<union> range WithMockWebRTC \<union> range WithSlim
                \<union> range WithHeaderConstraints \<longrightarrow>
      network g' = network g \<and> headerGenerator g' = headerGenerator g)"
proof -
  have final: "g' = fold (\<lambda>opt g. opt g) opts g"
    if "Generate transform g opts r = Some (g', res)" for opts g' res
    using that
    by (auto simp: Generate_def Let_def split: Option.bind_splits outcome.splits if_splits
        search.splits prod.splits sum.splits)
  have kept: "network (fold (\<lambda>opt g. opt g) opts g) = network g \<and>
      headerGenerator (fold (\<lambda>opt g. opt g) opts g) = headerGenerator g"
    if "set opts \<subseteq> range WithScreen \<union> range WithStrict \<union> range WithMockWebRTC \<union> range WithSlim
                \<union> range WithHeaderConstraints"
    using that
    by (induction opts arbitrary: g)
       (auto simp: WithScreen_def WithStrict_def WithMockWebRTC_def WithSlim_def
          WithHeaderConstraints_def)
  from final[of opts g' res] final[of "[]" g' res] kept show ?thesis by auto
qed

theorem generate_changes_only_through_options_witness:
  "Generate keepRaw toyFingerprintGenerator [] zeroDraws =
     Some (toyFingerprintGenerator,
           Returned ([(''A'', ''a1''), (''B'', ''b1'')],
                     [(''User-Agent'', ''Mozilla/5.0''), (''Accept-Language'', ''en-US;q=1.0''),
                      (''Sec-Fetch-Mode'', ''same-site''), (''Sec-Fetch-Dest'', ''navigate''),
                      (''Sec-Fetch-Site'', ''?1''), (''Sec-Fetch-User'', ''document'')],
                     False, False) zeroDraws) \<and>
   network toyFingerprintGenerator = toyNetwork"
  using generate_changes_only_through_options[of keepRaw toyFingerprintGenerator "[]" zeroDraws
      toyFingerprintGenerator
      "Returned ([(''A'', ''a1''), (''B'', ''b1'')],
                     [(''User-Agent'', ''Mozilla/5.0''), (''Accept-Language'', ''en-US;q=1.0''),
                      (''Sec-Fetch-Mode'', ''same-site''), (''Sec-Fetch-Dest'', ''navigate''),
                      (''Sec-Fetch-Site'', ''?1''), (''Sec-Fetch-User'', ''document'')],
                     False, False) zeroDraws"]
    toy_Generate[of toyFingerprintGenerator]
  by (simp add: toyFingerprintGenerator_def)

text \<open>
  The claim as stated fails for a call passing an option: \<open>WithStrict(true)\<close> leaves the
  generator with \<open>strict\<close> set.
\<close>

theorem per_call_option_changes_generator:
  "Generate keepRaw toyFingerprintGenerator [WithStrict True] zeroDraws =
     Some (toyFingerprintGenerator\<lparr>strict := True\<rparr>,
           Returned ([(''A'', ''a1''), (''B'', ''b1'')],
                     [(''User-Agent'', ''Mozilla/5.0''), (''Accept-Language'', ''en-US;q=1.0''),
                      (''Sec-Fetch-Mode'', ''same-site''), (''Sec-Fetch-Dest'', ''navigate''),
                      (''Sec-Fetch-Site'', ''?1''), (''Sec-Fetch-User'', ''document'')],
                     False, False) zeroDraws) \<and>
   strict toyFingerprintGenerator = False \<and>
   strict (toyFingerprintGenerator\<lparr>strict := True\<rparr>) = True"
proof -
  have "Generate keepRaw toyFingerprintGenerator [WithStrict True] zeroDraws =
      Generate keepRaw (toyFingerprintGenerator\<lparr>strict := True\<rparr>) [] zeroDraws"
    by (simp add: Generate_def WithStrict_def)
  then show ?thesis
    using toy_Generate[of "toyFingerprintGenerator\<lparr>strict := True\<rparr>"]
    by (simp add: toyFingerprintGenerator_def)
qed

text \<open>
  Claim C6, as amended. When restricted sampling succeeds and the merged HTTP version
  is \<open>2\<close>: if the sampled \<open>*BROWSER_HTTP\<close> parses to chrome with major version at least
  76, firefox at least 90 or edge at least 79, the four Sec-Fetch headers are all in the
  returned header map; if it does not, a Sec-Fetch header is in the returned map exactly
  when the header sample binds its name, in some letter case, to a value other than the
  missing-value token. So when the header sample binds no Sec-Fetch name to such a
  value, the four headers are in the map if the browser passes the gate and none of
  them is otherwise: safari and strings that do not parse never add them.
\<close>

theorem sec_fetch_headers_follow_gate:
  assumes "mergeOptions g opts = (constraints, None)"
    and "prepareConstraints g constraints = Inr inputConstraints"
    and "generateConsistentSampleWhenPossible (inputGeneratorNetwork g) inputConstraints r
         = Some (Found inputSample r1)"
    and "generateSample (headerGeneratorNetwork g) inputSample r1 = (Inr smp, r2)"
    and "HTTPVersion constraints = ''2''"
  shows "\<exists>headers. GenerateHeaders g opts r = Some (Returned (Some headers) r2) \<and>
     (let gate = (\<exists>b name major rest.
           prepareHttpBrowserObject (index_str smp ''*BROWSER_HTTP'') = Some b \<and>
           browser_Name b = Some name \<and> Version b = major # rest \<and>
           (name = ''chrome'' \<and> 76 \<le> major \<or> name = ''firefox'' \<and> 90 \<le> major \<or>
            name = ''edge'' \<and> 79 \<le> major))
      in (gate \<longrightarrow> (\<forall>K \<in> set secFetchTitleNames. hasKey headers K)) \<and>
         (\<not> gate \<longrightarrow>
            (\<forall>K \<in> set secFetchTitleNames.
               hasKey headers K \<longleftrightarrow>
               (\<exists>(k, v) \<in> set smp. ToLower k = ToLower K \<and> v \<noteq> missingValueToken))) \<and>
         ((\<forall>(k, v) \<in> set smp. ToLower k \<in> set secFetchNames \<longrightarrow> v = missingValueToken) \<longrightarrow>
            (if gate then \<forall>K \<in> set secFetchTitleNames. hasKey headers K
             else \<forall>K \<in> set secFetchTitleNames. \<not> hasKey headers K)))"
proof -
  define headers where "headers = pascalizeHeaders
      (addSecFetch smp (addAcceptLanguage constraints smp (generateHeadersFromSample smp)))"
  define gate where "gate \<longleftrightarrow>
      shouldAddSecFetch (prepareHttpBrowserObject (index_str smp ''*BROWSER_HTTP''))"
  have "GenerateHeaders g opts r = Some (headersFromInputSample g constraints inputSample r1)"
    by (rule GenerateHeaders_found[OF assms(1-3)])
  also have "headersFromInputSample g constraints inputSample r1 = Returned (Some headers) r2"
    by (simp add: headersFromInputSample_def assms(4,5) Let_def headers_def)
  finally have run: "GenerateHeaders g opts r = Some (Returned (Some headers) r2)" .
  have pass: "\<forall>K \<in> set secFetchTitleNames. hasKey headers K" if gate
    using sec_fetch_keys_when_gate_passes[OF that[unfolded gate_def] headers_def]
    unfolding hasKey_mem by blast
  have fail: "\<forall>K \<in> set secFetchTitleNames.
       hasKey headers K \<longleftrightarrow>
       (\<exists>(k, v) \<in> set smp. ToLower k = ToLower K \<and> v \<noteq> missingValueToken)" if "\<not> gate"
    using sec_fetch_keys_when_gate_fails[OF that[unfolded gate_def] headers_def]
    unfolding hasKey_mem by blast
  have none: "\<forall>K \<in> set secFetchTitleNames. \<not> hasKey headers K"
    if "\<not> gate"
      and nosec: "\<forall>(k, v) \<in> set smp. ToLower k \<in> set secFetchNames \<longrightarrow> v = missingValueToken"
  proof
    fix K assume K: "K \<in> set secFetchTitleNames"
    then have "ToLower K \<in> set secFetchNames" using sec_fetch_sets(3) by blast
    then have "\<not> (\<exists>(k, v) \<in> set smp. ToLower k = ToLower K \<and> v \<noteq> missingValueToken)"
      using nosec by fastforce
    then show "\<not> hasKey headers K" using fail[OF \<open>\<not> gate\<close>] K by blast
  qed
  have "(gate \<longrightarrow> (\<forall>K \<in> set secFetchTitleNames. hasKey headers K)) \<and>
         (\<not> gate \<longrightarrow>
            (\<forall>K \<in> set secFetchTitleNames.
               hasKey headers K \<longleftrightarrow>
               (\<exists>(k, v) \<in> set smp. ToLower k = ToLower K \<and> v \<noteq> missingValueToken))) \<and>
         ((\<forall>(k, v) \<in> set smp. ToLower k \<in> set secFetchNames \<longrightarrow> v = missingValueToken) \<longrightarrow>
            (if gate then \<forall>K \<in> set secFetchTitleNames. hasKey headers K
             else \<forall>K \<in> set secFetchTitleNames. \<not> hasKey headers K))"
    using pass fail none by (cases gate) simp_all
  then show ?thesis
    using run unfolding gate_def shouldAddSecFetch_iff Let_def by blast
qed

theorem sec_fetch_headers_follow_gate_witness:
  "(\<exists>headers. GenerateHeaders toyGenerator emptyConstraints zeroDraws
       = Some (Returned (Some headers) zeroDraws) \<and>
     hasKey headers ''Sec-Fetch-Mode'' \<and> hasKey headers ''Sec-Fetch-Dest'' \<and>
     hasKey headers ''Sec-Fetch-Site'' \<and> hasKey headers ''Sec-Fetch-User'') \<and>
   (\<exists>headers. GenerateHeaders toyGenerator (emptyConstraints\<lparr>Browsers := [''safari'']\<rparr>) zeroDraws
       = Some (Returned (Some headers) zeroDraws) \<and>
     \<not> hasKey headers ''Sec-Fetch-Mode'' \<and> \<not> hasKey headers ''Sec-Fetch-Dest'' \<and>
     \<not> hasKey headers ''Sec-Fetch-Site'' \<and> \<not> hasKey headers ''Sec-Fetch-User'')"
proof -
  have s: "generateConsistentSampleWhenPossible (inputGeneratorNetwork toyGenerator)
     [(''*BROWSER_HTTP'', [''chrome/131.0.0.0|2'', ''safari/17.0|2'']),
      (''*OPERATING_SYSTEM'', [''windows'', ''macos'', ''linux'', ''android'', ''ios'']),
      (''*DEVICE'', [''desktop'', ''mobile''])] zeroDraws
   = Some (Found [(''*BROWSER_HTTP'', ''chrome/131.0.0.0|2''), (''*OPERATING_SYSTEM'', ''windows''),
                  (''*DEVICE'', ''desktop'')] zeroDraws)"
    by (simp add: toy_fields toy_input_sample)
  have h: "generateSample (headerGeneratorNetwork toyGenerator)
     [(''*BROWSER_HTTP'', ''chrome/131.0.0.0|2''), (''*OPERATING_SYSTEM'', ''windows''),
      (''*DEVICE'', ''desktop'')] zeroDraws
   = (Inr [(''*BROWSER_HTTP'', ''chrome/131.0.0.0|2''), (''*OPERATING_SYSTEM'', ''windows''),
           (''*DEVICE'', ''desktop''), (''*HTTP_VERSION'', ''2''), (''user-agent'', ''Mozilla/5.0''),
           (''dnt'', ''*MISSING_VALUE*'')], zeroDraws)"
    by (simp add: toy_fields toy_header_sample)
  have v: "HTTPVersion defaultHeaderOptions = ''2''"
    "HTTPVersion (defaultHeaderOptions\<lparr>Browsers := [''safari'']\<rparr>) = ''2''"
    by (simp_all add: defaultHeaderOptions_def)
  have "\<exists>headers. GenerateHeaders toyGenerator emptyConstraints zeroDraws
       = Some (Returned (Some headers) zeroDraws) \<and>
     (\<forall>K \<in> set secFetchTitleNames. hasKey headers K)"
    by (rule gate_passes_case[OF sec_fetch_headers_follow_gate[OF toy_merge toy_prepare s h v(1)]])
       (simp add: index_str_def toy_browser_objects)
  then have chrome: "\<exists>headers. GenerateHeaders toyGenerator emptyConstraints zeroDraws
       = Some (Returned (Some headers) zeroDraws) \<and>
     hasKey headers ''Sec-Fetch-Mode'' \<and> hasKey headers ''Sec-Fetch-Dest'' \<and>
     hasKey headers ''Sec-Fetch-Site'' \<and> hasKey headers ''Sec-Fetch-User''"
    by (simp add: secFetchTitleNames_def)
  have "\<exists>headers. GenerateHeaders toyGenerator (emptyConstraints\<lparr>Browsers := [''safari'']\<rparr>)
       zeroDraws = Some (Returned (Some headers) zeroDraws) \<and>
     (\<forall>K \<in> set secFetchTitleNames. \<not> hasKey headers K)"
  proof (rule gate_fails_case[OF sec_fetch_headers_follow_gate[OF toy_safari_merge
          toy_safari_prepare toy_safari_input_sample toy_safari_header_sample v(2)]])
    show "\<not> (\<exists>b name major rest.
        prepareHttpBrowserObject
          (index_str [(''*BROWSER_HTTP'', ''safari/17.0|2''), (''*OPERATING_SYSTEM'', ''windows''),
             (''*DEVICE'', ''desktop''), (''*HTTP_VERSION'', ''2''), (''user-agent'', ''Mozilla/5.0''),
             (''dnt'', ''*MISSING_VALUE*'')] ''*BROWSER_HTTP'') = Some b \<and>
        browser_Name b = Some name \<and> Version b = major # rest \<and>
        (name = ''chrome'' \<and> 76 \<le> major \<or> name = ''firefox'' \<and> 90 \<le> major \<or>
         name = ''edge'' \<and> 79 \<le> major))"
      by (simp add: index_str_def toy_browser_objects)
    show "\<forall>(k, v) \<in> set [(''*BROWSER_HTTP'', ''safari/17.0|2''), (''*OPERATING_SYSTEM'', ''windows''),
           (''*DEVICE'', ''desktop''), (''*HTTP_VERSION'', ''2''), (''user-agent'', ''Mozilla/5.0''),
           (''dnt'', ''*MISSING_VALUE*'')]. ToLower k \<in> set secFetchNames \<longrightarrow> v = missingValueToken"
      by (rule toy_samples_bind_no_sec_fetch(2))
  qed
  then have safari: "\<exists>headers. GenerateHeaders toyGenerator
       (emptyConstraints\<lparr>Browsers := [''safari'']\<rparr>) zeroDraws
       = Some (Returned (Some headers) zeroDraws) \<and>
     \<not> hasKey headers ''Sec-Fetch-Mode'' \<and> \<not> hasKey headers ''Sec-Fetch-Dest'' \<and>
     \<not> hasKey headers ''Sec-Fetch-Site'' \<and> \<not> hasKey headers ''Sec-Fetch-User''"
    by (simp add: secFetchTitleNames_def)
  from chrome safari show ?thesis by (rule conjI)
qed

text \<open>
  The claim as stated fails when the header network itself has nodes named after the
  Sec-Fetch headers: for a browser that does not pass the gate, here safari, their
  sampled values are copied to the header map.
\<close>

theorem sampled_sec_fetch_headers_pass_the_gate:
  "GenerateHeaders secFetchGenerator (emptyConstraints\<lparr>Browsers := [''safari'']\<rparr>) zeroDraws
     = Some (Returned (Some
         [(''User-Agent'', ''Mozilla/5.0''), (''Sec-Fetch-Mode'', ''navigate''),
          (''Sec-Fetch-Dest'', ''document''), (''Sec-Fetch-Site'', ''none''),
          (''Sec-Fetch-User'', ''?1''), (''Accept-Language'', ''en-US;q=1.0'')]) zeroDraws) \<and>
   \<not> shouldAddSecFetch (prepareHttpBrowserObject ''safari/17.0|2'')"
proof -
  have "GenerateHeaders secFetchGenerator (emptyConstraints\<lparr>Browsers := [''safari'']\<rparr>) zeroDraws
     = Some (headersFromInputSample secFetchGenerator
         (defaultHeaderOptions\<lparr>Browsers := [''safari'']\<rparr>)
         [(''*BROWSER_HTTP'', ''safari/17.0|2''), (''*OPERATING_SYSTEM'', ''windows''),
          (''*DEVICE'', ''desktop'')] zeroDraws)"
    by (rule GenerateHeaders_found[OF safari_merge safari_prepare safari_input_sample])
  then show ?thesis
    by (simp add: headersFromInputSample_def safari_header_sample safari_header_steps Let_def)
       (simp add: defaultHeaderOptions_def)
qed

end
